theory Spec2Isabelle
  imports Complex_Main
begin

section \<open>Quantitative analysis engine (ai_analyzer/quant.py)\<close>

text \<open>
  The engine computes technical indicators, performance metrics and strategy backtests
  from a list of price records. Python floats are modelled as reals, and an arithmetic
  operation is the mathematical one, with two exceptions. The squaring \<open>x ** 2\<close> of
  \<open>_std\<close> raises OverflowError when the square leaves the float range, as the power
  operator of Python does. And \<open>calculate_kdj\<close>, whose three results the properties
  below compare with each other, rounds every operation to binary64. Elsewhere there is
  no rounding, and nowhere an infinity or a NaN: an operation other than \<open>**\<close> that
  overflows gives \<open>inf\<close> in Python and the computation goes on, which the model does
  not follow. Python exceptions are values of the type \<open>error\<close>; a function that can raise
  returns \<open>error + 'a\<close> with \<open>Inl\<close> for the exception. An optional float
  (\<open>float | None\<close>) is a \<open>real option\<close>. Periods are Python ints; the model
  takes them as naturals (negative periods are not modelled). The methods of
  \<open>QuantAnalyzer\<close> keep their names, without the leading underscore of the private
  ones.
\<close>

subsection \<open>Python values, exceptions and list helpers\<close>

datatype error =
  KeyError | TypeError | ZeroDivisionError | ValueError | IndexError | OverflowError

text \<open>Sequencing of computations that may raise: the first exception wins.\<close>

definition ebind :: "error + 'a \<Rightarrow> ('a \<Rightarrow> error + 'b) \<Rightarrow> error + 'b" where
  "ebind m f = (case m of Inl e \<Rightarrow> Inl e | Inr x \<Rightarrow> f x)"

text \<open>
  The values a record of the input may hold under a key: \<open>None\<close>, a number or a
  string. A number is a float, or an int or bool that \<open>float\<close> converts (all read as a
  real); an int too large for a float, on which \<open>float\<close> raises OverflowError, is not a
  value of this type.
\<close>

datatype pyval = PNone | PNum real | PStr string

text \<open>A price record is a dict from field names to values.\<close>

type_synonym point = "string \<rightharpoonup> pyval"

text \<open>Truthiness of an optional float: \<open>None\<close> and \<open>0.0\<close> are false.\<close>

definition truthy :: "real option \<Rightarrow> bool" where
  "truthy v = (case v of None \<Rightarrow> False | Some x \<Rightarrow> x \<noteq> 0)"

text \<open>
  The slice \<open>xs[-n:]\<close> for \<open>n \<ge> 0\<close>: the last \<open>n\<close> elements (all of them when the
  list is shorter), and the whole list when \<open>n = 0\<close>, since \<open>-0\<close> is \<open>0\<close>.
\<close>

definition py_suffix :: "nat \<Rightarrow> 'a list \<Rightarrow> 'a list" where
  "py_suffix n xs = (if n = 0 then xs else drop (length xs - n) xs)"

text \<open>Float division: raises on a zero divisor.\<close>

definition py_div :: "real \<Rightarrow> real \<Rightarrow> error + real" where
  "py_div a b = (if b = 0 then Inl ZeroDivisionError else Inr (a / b))"

text \<open>A list comprehension or generator whose element expression may raise.\<close>

fun emap :: "('a \<Rightarrow> error + 'b) \<Rightarrow> 'a list \<Rightarrow> error + 'b list" where
  "emap f [] = Inr []"
| "emap f (x # xs) = ebind (f x) (\<lambda>y. ebind (emap f xs) (\<lambda>ys. Inr (y # ys)))"

text \<open>A loop over indices whose body may raise; the state is threaded through.\<close>

fun efold :: "('s \<Rightarrow> 'a \<Rightarrow> error + 's) \<Rightarrow> 's \<Rightarrow> 'a list \<Rightarrow> error + 's" where
  "efold step s [] = Inr s"
| "efold step s (i # rest) = ebind (step s i) (\<lambda>s'. efold step s' rest)"

subsection \<open>Floating point\<close>

text \<open>Rounding to the nearest integer, a tie going to the even neighbour.\<close>

definition round_half_even :: "real \<Rightarrow> int" where
  "round_half_even y =
     (let f = \<lfloor>y\<rfloor>; d = y - of_int f
      in if d < 1 / 2 then f else if d > 1 / 2 then f + 1
         else if even f then f else f + 1)"

text \<open>
  The binary64 numbers near \<open>x\<close> are the multiples of \<open>2 ^ float_exponent x\<close>: 53
  significant bits for a normal number, and the fixed spacing \<open>2 ^ -1074\<close> of the
  subnormal numbers below \<open>2 ^ -1022\<close>. \<open>binary64\<close> rounds a real to the nearest of
  them, a tie going to the even neighbour, which is what every float operation of
  Python does to its exact result. There is no infinity: a result at or above
  \<open>float_limit\<close>, which Python rounds to \<open>inf\<close>, is rounded like any other number.
\<close>

definition float_exponent :: "real \<Rightarrow> int" where
  "float_exponent x = max \<lfloor>log 2 \<bar>x\<bar>\<rfloor> (- 1022) - 52"

definition round_at :: "int \<Rightarrow> real \<Rightarrow> real" where
  "round_at e x = of_int (round_half_even (x / 2 powr of_int e)) * 2 powr of_int e"

definition binary64 :: "real \<Rightarrow> real" where
  "binary64 x = (if x = 0 then 0 else round_at (float_exponent x) x)"

text \<open>
  The least real that rounds to infinity: half a unit in the last place above the
  largest float.
\<close>

definition float_limit :: real where
  "float_limit = 2 ^ 1024 - 2 ^ 970"

text \<open>
  \<open>x ** 2\<close> on a float: OverflowError when the square is out of range.
\<close>

definition py_square :: "real \<Rightarrow> error + real" where
  "py_square x = (if float_limit \<le> x\<^sup>2 then Inl OverflowError else Inr (x\<^sup>2))"

subsection \<open>Moving averages and standard deviation\<close>

text \<open>\<open>_sma(data, period)\<close>: mean of the last \<open>period\<close> values.\<close>

definition sma :: "real list \<Rightarrow> nat \<Rightarrow> error + real option" where
  "sma data period =
     (if length data < period then Inr None
      else ebind (py_div (sum_list (py_suffix period data)) (real period))
             (\<lambda>m. Inr (Some m)))"

text \<open>
  \<open>_ema(data, period)\<close>: seeded with the mean of the first \<open>period\<close> values, then
  updated once per later price.
\<close>

definition ema :: "real list \<Rightarrow> nat \<Rightarrow> error + real option" where
  "ema data period =
     (if length data < period then Inr None
      else
        let multiplier = 2 / (real period + 1) in
        ebind (py_div (sum_list (take period data)) (real period))
          (\<lambda>seed. Inr (Some (foldl (\<lambda>e price. (price - e) * multiplier + e)
                                 seed (drop period data)))))"

text \<open>
  \<open>_std(data)\<close>: sample standard deviation, 0 below two values. The squares are
  computed one after the other, and the first one out of range raises.
\<close>

definition std :: "real list \<Rightarrow> error + real" where
  "std data =
     (if length data < 2 then Inr 0
      else
        let mean = sum_list data / real (length data) in
        ebind (emap (\<lambda>x. py_square (x - mean)) data) (\<lambda>squares.
          let variance = sum_list squares / real (length data - 1)
          in Inr (sqrt variance)))"

subsection \<open>RSI\<close>

text \<open>The list \<open>[prices[i] - prices[i - 1] for i in range(1, len(prices))]\<close>.\<close>

definition changes :: "real list \<Rightarrow> real list" where
  "changes prices = map (\<lambda>i. prices ! i - prices ! (i - 1)) [1..<length prices]"

definition calculate_rsi :: "real list \<Rightarrow> nat \<Rightarrow> error + real option" where
  "calculate_rsi prices period =
     (if length prices < period + 1 then Inr None
      else
        let recent = py_suffix period (changes prices);
            gains = map (\<lambda>c. max 0 c) recent;
            losses = map (\<lambda>c. \<bar>min 0 c\<bar>) recent
        in
        ebind (py_div (sum_list gains) (real period)) (\<lambda>avg_gain.
        ebind (py_div (sum_list losses) (real period)) (\<lambda>avg_loss.
          if avg_loss = 0 then Inr (Some 100)
          else
            ebind (py_div avg_gain avg_loss) (\<lambda>rs.
            ebind (py_div 100 (1 + rs)) (\<lambda>q. Inr (Some (100 - q)))))))"

subsection \<open>MACD\<close>

text \<open>
  The loop that rebuilds the MACD line at every prefix length \<open>i\<close>; a value is
  appended only when both EMAs are truthy (\<open>if ef and es\<close>).
\<close>

fun macd_history :: "real list \<Rightarrow> nat \<Rightarrow> nat \<Rightarrow> nat list \<Rightarrow> real list \<Rightarrow> error + real list" where
  "macd_history prices fast slow [] acc = Inr acc"
| "macd_history prices fast slow (i # rest) acc =
     ebind (ema (take i prices) fast) (\<lambda>ef.
     ebind (ema (take i prices) slow) (\<lambda>es.
       macd_history prices fast slow rest
         (case (ef, es) of
            (Some f, Some s) \<Rightarrow> if f \<noteq> 0 \<and> s \<noteq> 0 then acc @ [f - s] else acc
          | _ \<Rightarrow> acc)))"

definition calculate_macd ::
  "real list \<Rightarrow> nat \<Rightarrow> nat \<Rightarrow> nat \<Rightarrow> error + (real option \<times> real option \<times> real option)" where
  "calculate_macd prices fast slow signal =
     (if length prices < slow + signal then Inr (None, None, None)
      else
        ebind (ema prices fast) (\<lambda>ema_fast.
        ebind (ema prices slow) (\<lambda>ema_slow.
          case (ema_fast, ema_slow) of
            (Some ef, Some es) \<Rightarrow>
              let macd_line = ef - es in
              ebind (macd_history prices fast slow [slow..<length prices + 1] [])
                (\<lambda>history.
                   if length history < signal then Inr (Some macd_line, None, None)
                   else
                     ebind (sma history signal) (\<lambda>signal_line.
                       Inr (Some macd_line, signal_line,
                            (case signal_line of
                               Some sl \<Rightarrow> if sl \<noteq> 0 then Some (macd_line - sl) else None
                             | None \<Rightarrow> None))))
          | _ \<Rightarrow> Inr (None, None, None))))"

subsection \<open>Bollinger bands, KDJ and ATR\<close>

definition calculate_bollinger ::
  "real list \<Rightarrow> nat \<Rightarrow> real \<Rightarrow> error + (real option \<times> real option \<times> real option)" where
  "calculate_bollinger prices period std_dev =
     (if length prices < period then Inr (None, None, None)
      else
        ebind (sma prices period) (\<lambda>middle.
        ebind (std (py_suffix period prices)) (\<lambda>sd.
          case middle of
            None \<Rightarrow> Inr (None, None, None)
          | Some m \<Rightarrow> Inr (Some (m + std_dev * sd), Some m, Some (m - std_dev * sd)))))"

text \<open>\<open>max(xs)\<close> and \<open>min(xs)\<close> raise ValueError on an empty list.\<close>

definition py_max :: "real list \<Rightarrow> error + real" where
  "py_max xs = (if xs = [] then Inl ValueError else Inr (Max (set xs)))"

definition py_min :: "real list \<Rightarrow> error + real" where
  "py_min xs = (if xs = [] then Inl ValueError else Inr (Min (set xs)))"

text \<open>\<open>xs[-1]\<close> raises IndexError on an empty list.\<close>

definition py_last :: "'a list \<Rightarrow> error + 'a" where
  "py_last xs = (if xs = [] then Inl IndexError else Inr (last xs))"

text \<open>
  \<open>calculate_kdj\<close>: the source takes K and D to be the current RSV and
  \<open>J = 3 * K - 2 * D\<close>. Every subtraction, division and product is rounded to
  binary64, for lists that hold binary64 numbers; the RSV of a window whose highest high
  and lowest low coincide is the int 50, on which the J line is exact. \<open>j_line\<close> is
  the expression \<open>3 * k - 2 * d\<close>.
\<close>

definition j_line :: "real \<Rightarrow> real \<Rightarrow> real" where
  "j_line k d = binary64 (binary64 (3 * k) - binary64 (2 * d))"

definition calculate_kdj ::
  "real list \<Rightarrow> real list \<Rightarrow> real list \<Rightarrow> nat \<Rightarrow> error + (real \<times> real \<times> real) option" where
  "calculate_kdj highs lows closes period =
     (if length closes < period then Inr None
      else
        ebind (py_max (py_suffix period highs)) (\<lambda>highest.
        ebind (py_min (py_suffix period lows)) (\<lambda>lowest.
        ebind (if highest = lowest then Inr 50
               else ebind (py_last closes) (\<lambda>c.
                    ebind (py_div (binary64 (c - lowest)) (binary64 (highest - lowest)))
                      (\<lambda>q. Inr (binary64 (binary64 q * 100)))))
          (\<lambda>rsv.
             let k = rsv; d = k; j = j_line k d
             in Inr (Some (k, d, j))))))"

text \<open>
  \<open>calculate_atr\<close>: the loop reads \<open>highs[i]\<close> and \<open>lows[i]\<close> for every
  \<open>1 \<le> i < len(closes)\<close>, which raises IndexError when either list is shorter.
\<close>

definition calculate_atr ::
  "real list \<Rightarrow> real list \<Rightarrow> real list \<Rightarrow> nat \<Rightarrow> error + real option" where
  "calculate_atr highs lows closes period =
     (if length closes < period + 1 then Inr None
      else if 2 \<le> length closes \<and>
              (length highs < length closes \<or> length lows < length closes)
      then Inl IndexError
      else
        let trs = map (\<lambda>i. max (highs ! i - lows ! i)
                             (max \<bar>highs ! i - closes ! (i - 1)\<bar>
                                  \<bar>lows ! i - closes ! (i - 1)\<bar>))
                      [1..<length closes]
        in ebind (py_div (sum_list (py_suffix period trs)) (real period))
             (\<lambda>a. Inr (Some a)))"

subsection \<open>The indicator record and the composite signal\<close>

text \<open>
  The five signal strings of the source, in its order: strong buy, buy, hold
  (the default of the record), sell, strong sell.
\<close>

datatype signal = StrongBuy | Buy | Hold | Sell | StrongSell

record TechnicalIndicators =
  ma5 :: "real option"
  ma10 :: "real option"
  ma20 :: "real option"
  ma60 :: "real option"
  ema12 :: "real option"
  ema26 :: "real option"
  macd :: "real option"
  macd_signal :: "real option"
  macd_hist :: "real option"
  rsi_6 :: "real option"
  rsi_14 :: "real option"
  boll_upper :: "real option"
  boll_middle :: "real option"
  boll_lower :: "real option"
  boll_width :: "real option"
  kdj_k :: "real option"
  kdj_d :: "real option"
  kdj_j :: "real option"
  atr :: "real option"
  obv_trend :: "string option"
  trend_score :: int
  signal :: signal

text \<open>\<open>TechnicalIndicators()\<close>: the defaults of the dataclass.\<close>

definition default_indicators :: TechnicalIndicators where
  "default_indicators =
     \<lparr>ma5 = None, ma10 = None, ma20 = None, ma60 = None, ema12 = None, ema26 = None,
      macd = None, macd_signal = None, macd_hist = None, rsi_6 = None, rsi_14 = None,
      boll_upper = None, boll_middle = None, boll_lower = None, boll_width = None,
      kdj_k = None, kdj_d = None, kdj_j = None, atr = None, obv_trend = None,
      trend_score = 0, signal = Hold\<rparr>"

text \<open>The four additive parts of the score, each an \<open>if\<close>/\<open>elif\<close> chain of the source.\<close>

definition ma_score :: "real \<Rightarrow> TechnicalIndicators \<Rightarrow> int" where
  "ma_score current_price ind =
     (if truthy (ma5 ind) \<and> truthy (ma10 ind) \<and> truthy (ma20 ind) then
        let m5 = the (ma5 ind); m10 = the (ma10 ind); m20 = the (ma20 ind) in
        if current_price > m5 \<and> m5 > m10 \<and> m10 > m20 then 30
        else if current_price > m5 \<and> m5 > m10 then 20
        else if current_price > m5 then 10
        else if current_price < m5 \<and> m5 < m10 \<and> m10 < m20 then - 30
        else if current_price < m5 \<and> m5 < m10 then - 20
        else if current_price < m5 then - 10
        else 0
      else 0)"

definition macd_score :: "TechnicalIndicators \<Rightarrow> int" where
  "macd_score ind =
     (case macd_hist ind of
        None \<Rightarrow> 0
      | Some h \<Rightarrow>
          (if h > 0 then (if h > 1 / 100 then 15 else 10)
           else - (if h < - (1 / 100) then 15 else 10))
          + (if truthy (macd ind) \<and> truthy (macd_signal ind)
             then (if the (macd ind) > the (macd_signal ind) then 10 else - 10)
             else 0))"

definition rsi_score :: "TechnicalIndicators \<Rightarrow> int" where
  "rsi_score ind =
     (if truthy (rsi_14 ind) then
        let r = the (rsi_14 ind) in
        if r > 70 then - 25
        else if r > 60 then - 10
        else if r < 30 then 25
        else if r < 40 then 10
        else 0
      else 0)"

definition kdj_score :: "TechnicalIndicators \<Rightarrow> int" where
  "kdj_score ind =
     (case kdj_j ind of
        None \<Rightarrow> 0
      | Some j \<Rightarrow>
          if j > 100 then - 20
          else if j > 80 then - 10
          else if j < 0 then 20
          else if j < 20 then 10
          else 0)"

definition calculate_signal :: "real \<Rightarrow> TechnicalIndicators \<Rightarrow> int \<times> signal" where
  "calculate_signal current_price ind =
     (let score = ma_score current_price ind + macd_score ind + rsi_score ind + kdj_score ind;
          score = max (- 100) (min 100 score)
      in (score,
          if score \<ge> 60 then StrongBuy
          else if score \<ge> 30 then Buy
          else if score \<ge> - 30 then Hold
          else if score \<ge> - 60 then Sell
          else StrongSell))"

subsection \<open>All indicators of a series\<close>

text \<open>
  \<open>safe_float\<close> of the source. The parameter \<open>parse\<close> stands for Python's
  \<open>float\<close> on a string: \<open>None\<close> where it raises ValueError.
\<close>

definition safe_float :: "(string \<Rightarrow> real option) \<Rightarrow> pyval \<Rightarrow> real" where
  "safe_float parse val =
     (case val of
        PNone \<Rightarrow> 0
      | PNum x \<Rightarrow> x
      | PStr s \<Rightarrow> (case parse s of Some x \<Rightarrow> x | None \<Rightarrow> 0))"

text \<open>\<open>d.get(key, default)\<close>.\<close>

definition dict_get :: "point \<Rightarrow> string \<Rightarrow> pyval \<Rightarrow> pyval" where
  "dict_get d key dflt = (case d key of Some v \<Rightarrow> v | None \<Rightarrow> dflt)"

text \<open>
  The three lists \<open>calculate_all_indicators\<close> builds from the records: a missing
  close reads as 0, a missing high or low as the close of the same record.
\<close>

definition extract_closes :: "(string \<Rightarrow> real option) \<Rightarrow> point list \<Rightarrow> real list" where
  "extract_closes parse history_data =
     map (\<lambda>d. safe_float parse (dict_get d ''close'' (PNum 0))) history_data"

definition extract_highs :: "(string \<Rightarrow> real option) \<Rightarrow> point list \<Rightarrow> real list" where
  "extract_highs parse history_data =
     map (\<lambda>(d, c). safe_float parse (dict_get d ''high'' (PNum c)))
         (zip history_data (extract_closes parse history_data))"

definition extract_lows :: "(string \<Rightarrow> real option) \<Rightarrow> point list \<Rightarrow> real list" where
  "extract_lows parse history_data =
     map (\<lambda>(d, c). safe_float parse (dict_get d ''low'' (PNum c)))
         (zip history_data (extract_closes parse history_data))"

text \<open>
  The band width, set by \<open>calculate_all_indicators\<close> only when the upper and the
  lower band are truthy, and then only when the middle band is truthy too.
\<close>

definition bollinger_width ::
  "real option \<Rightarrow> real option \<Rightarrow> real option \<Rightarrow> error + real option" where
  "bollinger_width upper middle lower =
     (if truthy upper \<and> truthy lower
      then (if truthy middle
            then ebind (py_div (the upper - the lower) (the middle))
                   (\<lambda>q. Inr (Some (q * 100)))
            else Inr None)
      else Inr None)"

text \<open>
  \<open>calculate_kdj\<close> returns three values or three \<open>None\<close>; the model returns an
  optional triple, and the record takes its components.
\<close>

definition calculate_all_indicators ::
  "(string \<Rightarrow> real option) \<Rightarrow> point list \<Rightarrow> error + TechnicalIndicators" where
  "calculate_all_indicators parse history_data =
     (if history_data = [] \<or> length history_data < 5 then Inr default_indicators
      else
        let closes = extract_closes parse history_data;
            highs = extract_highs parse history_data;
            lows = extract_lows parse history_data
        in
        ebind (sma closes 5) (\<lambda>v_ma5.
        ebind (sma closes 10) (\<lambda>v_ma10.
        ebind (sma closes 20) (\<lambda>v_ma20.
        ebind (sma closes 60) (\<lambda>v_ma60.
        ebind (ema closes 12) (\<lambda>v_ema12.
        ebind (ema closes 26) (\<lambda>v_ema26.
        ebind (calculate_macd closes 12 26 9) (\<lambda>(v_macd, v_signal, v_hist).
        ebind (calculate_rsi closes 6) (\<lambda>v_rsi6.
        ebind (calculate_rsi closes 14) (\<lambda>v_rsi14.
        ebind (calculate_bollinger closes 20 2) (\<lambda>(upper, middle, lower).
        ebind (bollinger_width upper middle lower) (\<lambda>width.
        ebind (calculate_kdj highs lows closes 9) (\<lambda>kdj.
        ebind (calculate_atr highs lows closes 14) (\<lambda>v_atr.
        ebind (py_last closes) (\<lambda>current_price.
          let ind = \<lparr>ma5 = v_ma5, ma10 = v_ma10, ma20 = v_ma20, ma60 = v_ma60,
                     ema12 = v_ema12, ema26 = v_ema26,
                     macd = v_macd, macd_signal = v_signal, macd_hist = v_hist,
                     rsi_6 = v_rsi6, rsi_14 = v_rsi14,
                     boll_upper = upper, boll_middle = middle, boll_lower = lower,
                     boll_width = width,
                     kdj_k = map_option fst kdj,
                     kdj_d = map_option (fst \<circ> snd) kdj,
                     kdj_j = map_option (snd \<circ> snd) kdj,
                     atr = v_atr, obv_trend = None,
                     trend_score = 0, signal = Hold\<rparr>;
              (score, sig) = calculate_signal current_price ind
          in Inr (ind\<lparr>trend_score := score, signal := sig\<rparr>))))))))))))))))"

subsection \<open>Performance metrics\<close>

text \<open>
  \<open>round(x, n)\<close> on exact reals: to the nearest multiple of \<open>10^-n\<close>, a tie going
  to the even neighbour.
\<close>

definition py_round :: "real \<Rightarrow> nat \<Rightarrow> real" where
  "py_round x n = of_int (round_half_even (x * 10 ^ n)) / 10 ^ n"

text \<open>\<open>d[key]\<close> raises KeyError on a missing key.\<close>

definition dict_item :: "point \<Rightarrow> string \<Rightarrow> error + pyval" where
  "dict_item d key = (case d key of Some v \<Rightarrow> Inr v | None \<Rightarrow> Inl KeyError)"

text \<open>
  Arithmetic on values read from a record: a number is needed, \<open>None\<close> or a string
  raises TypeError. \<open>v != 0\<close> is true of every non-number.
\<close>

definition py_num :: "pyval \<Rightarrow> error + real" where
  "py_num v = (case v of PNum x \<Rightarrow> Inr x | _ \<Rightarrow> Inl TypeError)"

definition py_ne0 :: "pyval \<Rightarrow> bool" where
  "py_ne0 v = (case v of PNum x \<Rightarrow> x \<noteq> 0 | _ \<Rightarrow> True)"

text \<open>Truthiness of such a value: \<open>None\<close>, zero and the empty string are false.\<close>

definition py_truthy :: "pyval \<Rightarrow> bool" where
  "py_truthy v = (case v of PNone \<Rightarrow> False | PNum x \<Rightarrow> x \<noteq> 0 | PStr s \<Rightarrow> s \<noteq> [])"

definition py_floats :: "pyval list \<Rightarrow> error + real list" where
  "py_floats vs = emap py_num vs"

text \<open>\<open>sum(vs)\<close> starts from the int 0 and adds from the left.\<close>

definition py_sum :: "pyval list \<Rightarrow> error + real" where
  "py_sum vs = efold (\<lambda>acc v. ebind (py_num v) (\<lambda>x. Inr (acc + x))) 0 vs"

record PerformanceMetrics =
  total_return :: real
  annual_return :: real
  daily_return_mean :: real
  daily_return_std :: real
  volatility :: real
  max_drawdown :: real
  max_drawdown_duration :: nat
  var_95 :: real
  var_99 :: real
  sharpe_ratio :: real
  sortino_ratio :: real
  calmar_ratio :: real
  positive_days :: nat
  negative_days :: nat
  best_day :: real
  worst_day :: real

text \<open>
  The loop of \<open>calculate_performance\<close> over consecutive closes
  (\<open>prev = closes[i - 1]\<close>, \<open>cur = closes[i]\<close>): a pair whose earlier close is zero is
  skipped, every other pair appends its percentage change.
\<close>

fun daily_returns :: "pyval list \<Rightarrow> error + real list" where
  "daily_returns (prev # cur # rest) =
     (if py_ne0 prev then
        ebind (py_num cur) (\<lambda>c.
        ebind (py_num prev) (\<lambda>p.
        ebind (py_div (c - p) p) (\<lambda>q.
        ebind (daily_returns (cur # rest)) (\<lambda>rs. Inr (q * 100 # rs)))))
      else daily_returns (cur # rest))"
| "daily_returns _ = Inr []"

text \<open>The state of the loop of \<open>_calculate_max_drawdown\<close>.\<close>

record dd_state =
  max_dd :: real
  max_dd_duration :: nat
  peak :: real
  peak_idx :: nat
  current_duration :: nat

definition dd_step :: "dd_state \<Rightarrow> nat \<times> real \<Rightarrow> dd_state" where
  "dd_step s ip =
     (let i = fst ip; price = snd ip in
      if price > peak s then s\<lparr>peak := price, peak_idx := i, current_duration := 0\<rparr>
      else
        let dd = (if peak s > 0 then (peak s - price) / peak s * 100 else 0);
            s' = s\<lparr>current_duration := i - peak_idx s\<rparr>
        in if dd > max_dd s'
           then s'\<lparr>max_dd := dd, max_dd_duration := current_duration s'\<rparr>
           else s')"

definition calculate_max_drawdown :: "real list \<Rightarrow> real \<times> nat" where
  "calculate_max_drawdown prices =
     (if prices = [] then (0, 0)
      else
        let s = foldl dd_step
                  \<lparr>max_dd = 0, max_dd_duration = 0, peak = hd prices, peak_idx = 0,
                   current_duration = 0\<rparr>
                  (enumerate 0 prices)
        in (max_dd s, max_dd_duration s))"

definition RISK_FREE_RATE :: real where
  "RISK_FREE_RATE = 2 / 100"

text \<open>
  The statistics of \<open>calculate_performance\<close>, from the closes as they were read, the
  non-empty list of daily returns and the number of records, in the order of the source:
  \<open>total_return\<close> subtracts the first close from the last, \<open>_std\<close> of the daily
  returns may raise, \<open>_calculate_max_drawdown\<close> compares every close with the peak
  and raises TypeError on a close that is not a number (\<open>py_floats\<close> stands for that
  pass), and \<open>_std\<close> of the negative returns may raise again. \<open>int(n * 0.05)\<close> and
  \<open>int(n * 0.01)\<close> are \<open>n div 20\<close> and \<open>n div 100\<close>.
\<close>

definition performance_metrics ::
  "pyval list \<Rightarrow> real list \<Rightarrow> nat \<Rightarrow> error + PerformanceMetrics" where
  "performance_metrics closes rets days =
     ebind (if py_truthy (hd closes)
            then ebind (py_num (last closes)) (\<lambda>cl.
                 ebind (py_num (hd closes)) (\<lambda>c0.
                 ebind (py_div (cl - c0) c0) (\<lambda>q. Inr (q * 100))))
            else Inr 0) (\<lambda>total.
     let annual = (if days > 0 then total * (252 / real days) else 0);
         daily_mean = sum_list rets / real (length rets)
     in
     ebind (std rets) (\<lambda>daily_std.
     ebind (py_floats closes) (\<lambda>prices.
     let vol = daily_std * sqrt 252;
         (mdd, mdd_duration) = calculate_max_drawdown prices;
         sorted_returns = sort rets;
         var_95_idx = length sorted_returns div 20;
         var_99_idx = length sorted_returns div 100;
         v95 = (if var_95_idx < length sorted_returns
                then sorted_returns ! var_95_idx else 0);
         v99 = (if var_99_idx < length sorted_returns
                then sorted_returns ! var_99_idx else 0);
         risk_free_daily = RISK_FREE_RATE / 252;
         sharpe = (if daily_std > 0
                   then (daily_mean - risk_free_daily * 100) / daily_std * sqrt 252
                   else 0);
         downside_returns = filter (\<lambda>r. r < 0) rets
     in
     ebind (if downside_returns \<noteq> [] then
              ebind (std downside_returns) (\<lambda>downside_std.
                Inr (if downside_std > 0
                     then (daily_mean - risk_free_daily * 100) / downside_std * sqrt 252
                     else 0))
            else Inr 0) (\<lambda>sortino.
     let calmar = (if mdd \<noteq> 0 then annual / \<bar>mdd\<bar> else 0)
     in Inr \<lparr>total_return = py_round total 2,
             annual_return = py_round annual 2,
             daily_return_mean = py_round daily_mean 4,
             daily_return_std = py_round daily_std 4,
             volatility = py_round vol 2,
             max_drawdown = py_round mdd 2,
             max_drawdown_duration = mdd_duration,
             var_95 = py_round v95 2,
             var_99 = py_round v99 2,
             sharpe_ratio = py_round sharpe 2,
             sortino_ratio = py_round sortino 2,
             calmar_ratio = py_round calmar 2,
             positive_days = length (filter (\<lambda>r. r > 0) rets),
             negative_days = length (filter (\<lambda>r. r < 0) rets),
             best_day = py_round (Max (set rets)) 2,
             worst_day = py_round (Min (set rets)) 2\<rparr>))))"

text \<open>
  \<open>calculate_performance\<close>. The closes are read with \<open>d["close"]\<close> and used as they
  are: the loop of the daily returns raises TypeError on the first pair it does not skip
  that holds a value that is not a number.
\<close>

definition calculate_performance :: "point list \<Rightarrow> error + PerformanceMetrics option" where
  "calculate_performance history_data =
     (if history_data = [] \<or> length history_data < 5 then Inr None
      else
        ebind (emap (\<lambda>d. dict_item d ''close'') history_data) (\<lambda>closes.
        ebind (daily_returns closes) (\<lambda>rets.
          if rets = [] then Inr None
          else
            ebind (performance_metrics closes rets (length history_data)) (\<lambda>m.
              Inr (Some m)))))"

subsection \<open>Strategy backtests\<close>

text \<open>
  The slice \<open>xs[a:b]\<close> with integer bounds: a negative bound counts from the end, and
  both bounds are clipped to the list.
\<close>

definition py_slice :: "int \<Rightarrow> int \<Rightarrow> 'a list \<Rightarrow> 'a list" where
  "py_slice a b xs =
     (let n = int (length xs);
          lo = (if a < 0 then max 0 (a + n) else min a n);
          hi = (if b < 0 then max 0 (b + n) else min b n)
      in take (nat (hi - lo)) (drop (nat lo) xs))"

text \<open>
  A trade signal is a dict in the source; its \<open>type\<close> is the buy or the sell string
  and its \<open>reason\<close> one of four formatted strings. The strategy name is a formatted
  string as well; each is a constructor here, with the periods it is formatted from.
\<close>

datatype action = BuySignal | SellSignal

datatype reason = MA_cross_up nat nat | MA_cross_down nat nat | RSI_rebound | RSI_overbought

datatype strategy = MA_cross nat nat | RSI_strategy nat

record trade_signal =
  sig_date :: pyval
  sig_type :: action
  sig_price :: real
  sig_rsi :: "real option"
  sig_profit :: "real option"
  sig_reason :: reason

record BacktestResult =
  strategy_name :: strategy
  total_return :: real
  annual_return :: real
  max_drawdown :: real
  sharpe_ratio :: real
  win_rate :: real
  profit_loss_ratio :: real
  trade_count :: nat
  signals :: "trade_signal list"

text \<open>
  The variables of the simulation loop: \<open>position\<close> (0 flat, 1 long),
  \<open>entry_price\<close>, and the lists \<open>signals\<close> and \<open>trades\<close> of the source
  (\<open>signal_log\<close> and \<open>trades\<close> here).
\<close>

record sim_state =
  position :: nat
  entry_price :: real
  signal_log :: "trade_signal list"
  trades :: "real list"

definition sim_init :: sim_state where
  "sim_init = \<lparr>position = 0, entry_price = 0, signal_log = [], trades = []\<rparr>"

text \<open>The mean of a window of closes: \<open>sum(closes[a:b]) / period\<close>.\<close>

definition window_mean :: "pyval list \<Rightarrow> int \<Rightarrow> int \<Rightarrow> nat \<Rightarrow> error + real" where
  "window_mean closes a b period =
     ebind (py_sum (py_slice a b closes)) (\<lambda>t. py_div t (real period))"

text \<open>
  One iteration of the loop of \<open>backtest_ma_cross\<close>, at index \<open>i\<close>. When a branch
  is reached \<open>closes[i]\<close> is a number, since the slow window that was summed contains
  it; \<open>py_num\<close> reads it.
\<close>

definition ma_cross_step ::
  "pyval list \<Rightarrow> pyval list \<Rightarrow> nat \<Rightarrow> nat \<Rightarrow> sim_state \<Rightarrow> nat \<Rightarrow> error + sim_state" where
  "ma_cross_step closes dates fast_period slow_period s i =
     ebind (window_mean closes (int i - int fast_period + 1) (int i + 1) fast_period)
       (\<lambda>fast_ma.
     ebind (window_mean closes (int i - int slow_period + 1) (int i + 1) slow_period)
       (\<lambda>slow_ma.
     ebind (window_mean closes (int i - int fast_period) (int i) fast_period)
       (\<lambda>prev_fast.
     ebind (window_mean closes (int i - int slow_period) (int i) slow_period)
       (\<lambda>prev_slow.
       if prev_fast \<le> prev_slow \<and> fast_ma > slow_ma \<and> position s = 0 then
         ebind (py_num (closes ! i)) (\<lambda>c.
           Inr (s\<lparr>position := 1, entry_price := c,
                  signal_log := signal_log s @
                    [\<lparr>sig_date = dates ! i, sig_type = BuySignal, sig_price = c,
                      sig_rsi = None, sig_profit = None,
                      sig_reason = MA_cross_up fast_period slow_period\<rparr>]\<rparr>))
       else if prev_fast \<ge> prev_slow \<and> fast_ma < slow_ma \<and> position s = 1 then
         ebind (py_num (closes ! i)) (\<lambda>c.
         ebind (py_div (c - entry_price s) (entry_price s)) (\<lambda>q.
           let profit = q * 100 in
           Inr (s\<lparr>position := 0, trades := trades s @ [profit],
                  signal_log := signal_log s @
                    [\<lparr>sig_date = dates ! i, sig_type = SellSignal, sig_price = c,
                      sig_rsi = None, sig_profit = Some (py_round profit 2),
                      sig_reason = MA_cross_down fast_period slow_period\<rparr>]\<rparr>)))
       else Inr s))))"

text \<open>
  One iteration of the loop of \<open>backtest_rsi\<close>, at index \<open>i\<close>. Both calls of
  \<open>calculate_rsi\<close> get at least \<open>period + 1\<close> closes, so the first one subtracts
  every pair of neighbours of \<open>closes[:i + 1]\<close> and raises TypeError unless all of them
  are numbers: \<open>py_floats\<close> stands for that.
\<close>

definition rsi_step ::
  "pyval list \<Rightarrow> pyval list \<Rightarrow> nat \<Rightarrow> real \<Rightarrow> real \<Rightarrow> sim_state \<Rightarrow> nat \<Rightarrow> error + sim_state"
  where
  "rsi_step closes dates period oversold overbought s i =
     ebind (py_floats (take (i + 1) closes)) (\<lambda>upto.
     ebind (calculate_rsi upto period) (\<lambda>rsi.
     ebind (calculate_rsi (take i upto) period) (\<lambda>prev_rsi.
       case (rsi, prev_rsi) of
         (Some r, Some pr) \<Rightarrow>
           if pr \<le> oversold \<and> r > oversold \<and> position s = 0 then
             ebind (py_num (closes ! i)) (\<lambda>c.
               Inr (s\<lparr>position := 1, entry_price := c,
                      signal_log := signal_log s @
                        [\<lparr>sig_date = dates ! i, sig_type = BuySignal, sig_price = c,
                          sig_rsi = Some (py_round r 2), sig_profit = None,
                          sig_reason = RSI_rebound\<rparr>]\<rparr>))
           else if pr \<ge> overbought \<and> r < overbought \<and> position s = 1 then
             ebind (py_num (closes ! i)) (\<lambda>c.
             ebind (py_div (c - entry_price s) (entry_price s)) (\<lambda>q.
               let profit = q * 100 in
               Inr (s\<lparr>position := 0, trades := trades s @ [profit],
                      signal_log := signal_log s @
                        [\<lparr>sig_date = dates ! i, sig_type = SellSignal, sig_price = c,
                          sig_rsi = Some (py_round r 2),
                          sig_profit = Some (py_round profit 2),
                          sig_reason = RSI_overbought\<rparr>]\<rparr>)))
           else Inr s
       | _ \<Rightarrow> Inr s)))"

text \<open>
  The statistics both backtests compute after their loop, from the closed trades, the
  signal log and the number of days. The source calls \<open>_std(trades)\<close> in the condition
  of the Sharpe ratio and again in its value; both calls give the same result, and the
  model has one.
\<close>

definition backtest_summary :: "strategy \<Rightarrow> nat \<Rightarrow> sim_state \<Rightarrow> error + BacktestResult" where
  "backtest_summary name days s =
     (let ts = trades s in
      if ts = [] then
        Inr \<lparr>strategy_name = name, total_return = 0, annual_return = 0, max_drawdown = 0,
             sharpe_ratio = 0, win_rate = 0, profit_loss_ratio = 0, trade_count = 0,
             signals = signal_log s\<rparr>
      else
        let total = sum_list ts;
            wins = filter (\<lambda>t. t > 0) ts;
            losses = filter (\<lambda>t. t < 0) ts;
            rate = real (length wins) / real (length ts) * 100;
            avg_win = (if wins \<noteq> [] then sum_list wins / real (length wins) else 0);
            avg_loss = (if losses \<noteq> [] then \<bar>sum_list losses / real (length losses)\<bar>
                        else 1);
            pl_ratio = (if avg_loss > 0 then avg_win / avg_loss else 0);
            annual = (if days > 0 then total * (252 / real days) else 0);
            mdd = \<bar>Min (set ts)\<bar>
        in
        ebind (std ts) (\<lambda>sd.
          let sharpe = (if sd > 0
                        then (sum_list ts / real (length ts)) / sd * sqrt (real (length ts))
                        else 0)
          in Inr \<lparr>strategy_name = name, total_return = py_round total 2,
                  annual_return = py_round annual 2, max_drawdown = py_round mdd 2,
                  sharpe_ratio = py_round sharpe 2, win_rate = py_round rate 2,
                  profit_loss_ratio = py_round pl_ratio 2, trade_count = length ts,
                  signals = py_suffix 5 (signal_log s)\<rparr>))"

text \<open>The simulation loops, and the two backtests built on them.\<close>

definition ma_cross_sim :: "pyval list \<Rightarrow> pyval list \<Rightarrow> nat \<Rightarrow> nat \<Rightarrow> error + sim_state" where
  "ma_cross_sim closes dates fast_period slow_period =
     efold (ma_cross_step closes dates fast_period slow_period) sim_init
       [slow_period..<length closes]"

definition rsi_sim ::
  "pyval list \<Rightarrow> pyval list \<Rightarrow> nat \<Rightarrow> real \<Rightarrow> real \<Rightarrow> error + sim_state" where
  "rsi_sim closes dates period oversold overbought =
     efold (rsi_step closes dates period oversold overbought) sim_init
       [period + 1..<length closes]"

definition get_dates :: "point list \<Rightarrow> pyval list" where
  "get_dates history_data = map (\<lambda>d. dict_get d ''date'' (PStr [])) history_data"

definition backtest_ma_cross :: "point list \<Rightarrow> nat \<Rightarrow> nat \<Rightarrow> error + BacktestResult option" where
  "backtest_ma_cross history_data fast_period slow_period =
     (if history_data = [] \<or> length history_data < slow_period + 10 then Inr None
      else
        ebind (emap (\<lambda>d. dict_item d ''close'') history_data) (\<lambda>closes.
        ebind (ma_cross_sim closes (get_dates history_data) fast_period slow_period) (\<lambda>s.
        ebind (backtest_summary (MA_cross fast_period slow_period) (length history_data) s)
          (\<lambda>r. Inr (Some r)))))"

definition backtest_rsi ::
  "point list \<Rightarrow> nat \<Rightarrow> real \<Rightarrow> real \<Rightarrow> error + BacktestResult option" where
  "backtest_rsi history_data period oversold overbought =
     (if history_data = [] \<or> length history_data < period + 10 then Inr None
      else
        ebind (emap (\<lambda>d. dict_item d ''close'') history_data) (\<lambda>closes.
        ebind (rsi_sim closes (get_dates history_data) period oversold overbought) (\<lambda>s.
        ebind (backtest_summary (RSI_strategy period) (length history_data) s)
          (\<lambda>r. Inr (Some r)))))"

subsection \<open>Example inputs\<close>

text \<open>A series of 34 closes of 1 followed by one close of 2.\<close>

definition macd_example_series :: "real list" where
  "macd_example_series = replicate 34 1 @ [2]"

text \<open>A record whose close, high and low are all 100.\<close>

definition flat_point :: point where
  "flat_point = [''close'' \<mapsto> PNum 100, ''high'' \<mapsto> PNum 100, ''low'' \<mapsto> PNum 100]"

text \<open>The series of 30 such records.\<close>

definition flat_series :: "point list" where
  "flat_series = replicate 30 flat_point"

text \<open>
  A record whose close is \<open>None\<close>, and a series of 30 records that starts with it.
\<close>

definition none_point :: point where
  "none_point = [''close'' \<mapsto> PNone]"

definition bad_series :: "point list" where
  "bad_series = none_point # replicate 29 flat_point"

text \<open>
  Records with a close and no other key, and two series of twelve of them: one that
  alternates between a fall and a rise, and one that rises after a single fall.
\<close>

definition close_point :: "real \<Rightarrow> point" where
  "close_point c = [''close'' \<mapsto> PNum c]"

definition zigzag_closes :: "real list" where
  "zigzag_closes = [1, 2, 1, 2, 1, 4, 2, 8, 4, 16, 8, 32]"

definition zigzag_series :: "point list" where
  "zigzag_series = map close_point zigzag_closes"

definition rising_closes :: "real list" where
  "rising_closes = [2, 1, 2, 3, 4, 5, 6, 7, 8, 9, 10, 11]"

definition rising_series :: "point list" where
  "rising_series = map close_point rising_closes"

text \<open>
  Records with a high, a low and a close, and a series of nine of them with highs of
  1000, lows of 0 and a last close of 1.
\<close>

definition hlc_point :: "real \<Rightarrow> real \<Rightarrow> real \<Rightarrow> point" where
  "hlc_point h l c = [''high'' \<mapsto> PNum h, ''low'' \<mapsto> PNum l, ''close'' \<mapsto> PNum c]"

definition range_series :: "point list" where
  "range_series = replicate 8 (hlc_point 1000 0 500) @ [hlc_point 1000 0 1]"

text \<open>
  Five closes, the first \<open>1e-100\<close> and the others \<open>1e100\<close>: the first daily return
  is about \<open>1e202\<close>, and its squared deviation from the mean is beyond the float range.
\<close>

definition overflow_closes :: "real list" where
  "overflow_closes = [1 / 10 ^ 100, 10 ^ 100, 10 ^ 100, 10 ^ 100, 10 ^ 100]"

definition overflow_series :: "point list" where
  "overflow_series = map close_point overflow_closes"

text \<open>
  Thirty closes: 100, fifteen of 0, four of 8 and ten of 0. The 5-day mean crosses above
  the 20-day mean at index 20, where the close is 0, and below it at index 24.
\<close>

definition zero_entry_closes :: "real list" where
  "zero_entry_closes = 100 # replicate 15 0 @ replicate 4 8 @ replicate 10 0"

definition zero_entry_series :: "point list" where
  "zero_entry_series = map close_point zero_entry_closes"

text \<open>
  Eleven closes on which the RSI of period 1 rebounds at index 2, where the close is 0,
  and falls from 100 to 0 at index 4.
\<close>

definition rsi_zero_entry_closes :: "real list" where
  "rsi_zero_entry_closes = [10, 0, 0, 5, 1, 1, 1, 1, 1, 1, 1]"

definition rsi_zero_entry_series :: "point list" where
  "rsi_zero_entry_series = map close_point rsi_zero_entry_closes"

text \<open>
  A series is well formed when every record has a number under \<open>close\<close>;
  \<open>close_values\<close> are those numbers.
\<close>

definition numeric_closes :: "point list \<Rightarrow> bool" where
  "numeric_closes history_data =
     list_all (\<lambda>d. case d ''close'' of Some (PNum c) \<Rightarrow> True | _ \<Rightarrow> False) history_data"

definition close_values :: "point list \<Rightarrow> real list" where
  "close_values history_data =
     map (\<lambda>d. case d ''close'' of Some (PNum c) \<Rightarrow> c | _ \<Rightarrow> 0) history_data"

text \<open>
  The shape of the simulation state: the position is 0 or 1, and the log holds a buy and
  a sell for every closed trade, plus the buy of an open position.
\<close>

definition sim_inv :: "sim_state \<Rightarrow> bool" where
  "sim_inv s \<longleftrightarrow>
     position s \<le> 1 \<and> length (signal_log s) = 2 * length (trades s) + position s"

text \<open>An open position was not entered at the price 0.\<close>

definition entry_inv :: "sim_state \<Rightarrow> bool" where
  "entry_inv s \<longleftrightarrow> (position s = 1 \<longrightarrow> entry_price s \<noteq> 0)"

section \<open>Verified properties\<close>

subsection \<open>Rounding to binary64\<close>

lemma rhe_cases: "round_half_even y = \<lfloor>y\<rfloor> \<or> round_half_even y = \<lfloor>y\<rfloor> + 1"
  by (simp add: round_half_even_def Let_def)

lemma rhe_of_int: "round_half_even (of_int n) = n"
  by (simp add: round_half_even_def)

lemma rhe_mono: "x \<le> y \<Longrightarrow> round_half_even x \<le> round_half_even y"
proof -
  assume le: "x \<le> y"
  have fl: "\<lfloor>x\<rfloor> \<le> \<lfloor>y\<rfloor>" using le by (rule floor_mono)
  show ?thesis
  proof (cases "\<lfloor>x\<rfloor> = \<lfloor>y\<rfloor>")
    case True
    then have "x - of_int \<lfloor>x\<rfloor> \<le> y - of_int \<lfloor>y\<rfloor>" using le by simp
    then show ?thesis using True
      by (auto simp add: round_half_even_def Let_def)
  next
    case False
    then have "\<lfloor>x\<rfloor> + 1 \<le> \<lfloor>y\<rfloor>" using fl by linarith
    moreover have "round_half_even x \<le> \<lfloor>x\<rfloor> + 1" using rhe_cases [of x] by linarith
    moreover have "\<lfloor>y\<rfloor> \<le> round_half_even y" using rhe_cases [of y] by linarith
    ultimately show ?thesis by linarith
  qed
qed

lemma rhe_err: "\<bar>of_int (round_half_even y) - y\<bar> \<le> 1 / 2"
proof -
  have "of_int \<lfloor>y\<rfloor> \<le> y" "y < of_int \<lfloor>y\<rfloor> + 1" by linarith+
  then show ?thesis
    by (auto simp add: round_half_even_def Let_def abs_le_iff)
qed

lemma pow2_int: "0 \<le> (i::int) \<Longrightarrow> 2 powr of_int i = real_of_int (2 ^ nat i)"
  by (simp add: powr_real_of_int)

lemma binade: "0 < x \<Longrightarrow> 2 powr of_int \<lfloor>log 2 x\<rfloor> \<le> x \<and> x < 2 powr (of_int \<lfloor>log 2 x\<rfloor> + 1)"
  using floor_log_eq_powr_iff [of x 2 "\<lfloor>log 2 x\<rfloor>"] by simp

lemma round_at_mono: "x \<le> y \<Longrightarrow> round_at e x \<le> round_at e y"
  unfolding round_at_def
  by (intro mult_right_mono iffD2 [OF of_int_le_iff] rhe_mono divide_right_mono) simp_all

lemma round_at_grid: "round_at e (of_int n * 2 powr of_int e) = of_int n * 2 powr of_int e"
  by (simp add: round_at_def rhe_of_int)

lemma round_at_0: "round_at e 0 = 0"
  by (simp add: round_at_def rhe_of_int [of 0, simplified])

lemma round_at_err: "\<bar>round_at e x - x\<bar> \<le> 2 powr of_int (e - 1)"
proof -
  define g :: real where "g = 2 powr of_int e"
  have g: "0 < g" by (simp add: g_def)
  have "round_at e x - x = (of_int (round_half_even (x / g)) - x / g) * g"
    using g by (simp add: round_at_def g_def algebra_simps)
  then have "\<bar>round_at e x - x\<bar> = \<bar>of_int (round_half_even (x / g)) - x / g\<bar> * g"
    using g by (simp add: abs_mult)
  also have "\<dots> \<le> 1 / 2 * g"
    using rhe_err [of "x / g"] g by (intro mult_right_mono) simp_all
  also have "\<dots> = 2 powr of_int (e - 1)"
    by (simp add: g_def powr_diff)
  finally show ?thesis .
qed

lemma binary64_nonneg: "0 \<le> x \<Longrightarrow> 0 \<le> binary64 x"
  using round_at_mono [of 0 x "float_exponent x"] by (simp add: binary64_def round_at_0)

lemma float_exponent_mono: "0 < x \<Longrightarrow> x \<le> y \<Longrightarrow> float_exponent x \<le> float_exponent y"
  unfolding float_exponent_def
  by (intro diff_right_mono max.mono floor_mono) simp_all

lemma binary64_mono:
  assumes "0 \<le> x" "x \<le> y"
  shows "binary64 x \<le> binary64 y"
proof (cases "x = 0")
  case True
  then show ?thesis using binary64_nonneg [of y] assms by (simp add: binary64_def)
next
  case False
  then have x: "0 < x" and y: "0 < y" using assms by simp_all
  define ex where "ex = float_exponent x"
  define ey where "ey = float_exponent y"
  have le: "ex \<le> ey" unfolding ex_def ey_def using x assms(2) by (rule float_exponent_mono)
  have fx: "binary64 x = round_at ex x" and fy: "binary64 y = round_at ey y"
    using x y by (simp_all add: binary64_def ex_def ey_def)
  show ?thesis
  proof (cases "ex = ey")
    case True
    then show ?thesis using fx fy round_at_mono [OF assms(2)] by simp
  next
    case False
    then have lt: "ex < ey" using le by simp
    define px where "px = \<lfloor>log 2 x\<rfloor>"
    define py where "py = \<lfloor>log 2 y\<rfloor>"
    have exd: "ex = max px (- 1022) - 52" and eyd: "ey = max py (- 1022) - 52"
      using x y by (simp_all add: ex_def ey_def float_exponent_def px_def py_def)
    have eyp: "ey = py - 52" and pxy: "px < py" and exy: "ex \<le> py"
      using lt exd eyd by linarith+
    define B :: real where "B = 2 powr of_int py"
    have "x < 2 powr (of_int px + 1)" using binade [OF x] by (simp add: px_def)
    also have "\<dots> \<le> B" unfolding B_def using pxy by (intro powr_mono) simp_all
    finally have xB: "x \<le> B" by simp
    have By: "B \<le> y" using binade [OF y] by (simp add: py_def B_def)
    have Bx: "B = of_int (2 ^ nat (py - ex)) * 2 powr of_int ex"
    proof -
      have "B = 2 powr of_int (py - ex) * 2 powr of_int ex"
        unfolding B_def by (simp add: powr_add [symmetric])
      then show ?thesis using pow2_int [of "py - ex"] exy by simp
    qed
    have Bye: "B = of_int (2 ^ 52) * 2 powr of_int ey"
    proof -
      show ?thesis unfolding B_def eyp by (simp add: powr_diff)
    qed
    have "round_at ex x \<le> round_at ex B" using xB by (rule round_at_mono)
    also have "\<dots> = B" using round_at_grid [of ex "2 ^ nat (py - ex)"] Bx by simp
    also have "\<dots> = round_at ey B" using round_at_grid [of ey "2 ^ 52"] Bye by simp
    also have "\<dots> \<le> round_at ey y" using By by (rule round_at_mono)
    finally show ?thesis using fx fy by simp
  qed
qed

lemma binary64_err:
  assumes "0 \<le> x" "x < 2 powr (of_int n + 1)" "- 1022 \<le> n"
  shows "\<bar>binary64 x - x\<bar> \<le> 2 powr of_int (n - 53)"
proof (cases "x = 0")
  case True
  then show ?thesis by (simp add: binary64_def)
next
  case False
  then have x: "0 < x" using assms(1) by simp
  have "log 2 x < of_int n + 1"
    using assms(2) x by (simp add: log_less_iff)
  then have "\<lfloor>log 2 x\<rfloor> \<le> n" by linarith
  then have "float_exponent x \<le> n - 52"
    using assms(3) x by (simp add: float_exponent_def)
  then have b: "2 powr of_int (float_exponent x - 1) \<le> (2::real) powr of_int (n - 53)"
    by (intro powr_mono) simp_all
  have c: "binary64 x = round_at (float_exponent x) x" using False by (simp add: binary64_def)
  show ?thesis
    unfolding c using round_at_err [of "float_exponent x" x] b by linarith
qed


lemma binary64_below_one:
  assumes "1 / 2 ^ n \<le> x" "x < 2 / 2 ^ n" "n \<le> 1022"
  shows "binary64 x = of_int (round_half_even (x * 2 ^ (n + 52))) / 2 ^ (n + 52)"
proof -
  have pos: "0 < x" using assms(1) by (smt (verit) divide_pos_pos zero_less_power)
  have a: "2 powr (- real n) = 1 / (2::real) ^ n"
    by (simp add: powr_minus_divide powr_realpow)
  have "2 powr (1 - real n) = 2 powr 1 * 2 powr (- real n)"
    using powr_add [of 2 1 "- real n"] by simp
  then have b: "2 powr (1 - real n) = 2 / (2::real) ^ n"
    by (simp add: a)
  have "\<lfloor>log 2 x\<rfloor> = - int n"
    using floor_log_eq_powr_iff [of x 2 "- int n"] pos assms by (simp add: a b)
  then have e: "float_exponent x = - int (n + 52)"
    using pos assms(3) by (simp add: float_exponent_def)
  have p: "2 powr of_int (- int (n + 52)) = 1 / (2::real) ^ (n + 52)"
    by (simp add: powr_minus_divide powr_realpow del: of_nat_add)
  show ?thesis
    using pos unfolding binary64_def round_at_def e p by simp
qed

lemma binary64_above_one:
  assumes "2 ^ n \<le> x" "x < 2 * 2 ^ n" "n \<le> 52"
  shows "binary64 x = of_int (round_half_even (x * 2 ^ (52 - n))) / 2 ^ (52 - n)"
proof -
  have pos: "0 < x" using assms(1) by (smt (verit) zero_less_power)
  have a: "2 powr real n = (2::real) ^ n"
    by (simp add: powr_realpow)
  have b: "2 powr (real n + 1) = 2 * (2::real) ^ n"
    by (simp add: powr_add a)
  have "\<lfloor>log 2 x\<rfloor> = int n"
    using floor_log_eq_powr_iff [of x 2 "int n"] pos assms(1,2) by (simp add: a b)
  then have e: "float_exponent x = - int (52 - n)"
    using pos assms(3) by (simp add: float_exponent_def)
  have p: "2 powr of_int (- int (52 - n)) = 1 / (2::real) ^ (52 - n)"
    by (simp add: powr_minus_divide powr_realpow)
  show ?thesis
    using pos unfolding binary64_def round_at_def e p by simp
qed

lemma binary64_1: "binary64 1 = 1"
  using binary64_above_one [of 0 1] by (simp add: round_half_even_def)

lemma binary64_50: "binary64 50 = 50"
  using binary64_above_one [of 5 50] by (simp add: round_half_even_def)

lemma binary64_64: "binary64 64 = 64"
  using binary64_above_one [of 6 64] by (simp add: round_half_even_def)

lemma binary64_100: "binary64 100 = 100"
  using binary64_above_one [of 6 100] by (simp add: round_half_even_def)

lemma binary64_150: "binary64 150 = 150"
  using binary64_above_one [of 7 150] by (simp add: round_half_even_def)

lemma j_line_50: "j_line 50 50 = 50"
  by (simp add: j_line_def binary64_150 binary64_100 binary64_50)

text \<open>The J line at the float 100 and at the two floats just below it.\<close>

lemma j_line_100: "j_line 100 100 = 100"
proof -
  have a: "binary64 (3 * 100) = 300"
    using binary64_above_one [of 8 "3 * 100"] by (simp add: round_half_even_def)
  have b: "binary64 (2 * 100) = 200"
    using binary64_above_one [of 7 "2 * 100"] by (simp add: round_half_even_def)
  show ?thesis unfolding j_line_def a b by (simp add: binary64_100)
qed

lemma j_line_100_1:
  "j_line (7036874417766399 / 2 ^ 46) (7036874417766399 / 2 ^ 46) = 7036874417766398 / 2 ^ 46"
proof -
  have a: "binary64 (3 * (7036874417766399 / 2 ^ 46)) = 5277655813324799 / 2 ^ 44"
    using binary64_above_one [of 8 "3 * (7036874417766399 / 2 ^ 46)"]
    by (simp add: round_half_even_def)
  have b: "binary64 (2 * (7036874417766399 / 2 ^ 46)) = 7036874417766399 / 2 ^ 45"
    using binary64_above_one [of 7 "2 * (7036874417766399 / 2 ^ 46)"]
    by (simp add: round_half_even_def)
  have c: "binary64 (5277655813324799 / 2 ^ 44 - 7036874417766399 / 2 ^ 45)
      = 7036874417766398 / 2 ^ 46"
    using binary64_above_one [of 6 "5277655813324799 / 2 ^ 44 - 7036874417766399 / 2 ^ 45"]
    by (simp add: round_half_even_def)
  show ?thesis unfolding j_line_def a b c ..
qed

lemma j_line_100_2:
  "j_line (7036874417766398 / 2 ^ 46) (7036874417766398 / 2 ^ 46) = 7036874417766396 / 2 ^ 46"
proof -
  have a: "binary64 (3 * (7036874417766398 / 2 ^ 46)) = 5277655813324798 / 2 ^ 44"
    using binary64_above_one [of 8 "3 * (7036874417766398 / 2 ^ 46)"]
    by (simp add: round_half_even_def)
  have b: "binary64 (2 * (7036874417766398 / 2 ^ 46)) = 7036874417766398 / 2 ^ 45"
    using binary64_above_one [of 7 "2 * (7036874417766398 / 2 ^ 46)"]
    by (simp add: round_half_even_def)
  have c: "binary64 (5277655813324798 / 2 ^ 44 - 7036874417766398 / 2 ^ 45)
      = 7036874417766396 / 2 ^ 46"
    using binary64_above_one [of 6 "5277655813324798 / 2 ^ 44 - 7036874417766398 / 2 ^ 45"]
    by (simp add: round_half_even_def)
  show ?thesis unfolding j_line_def a b c ..
qed

lemma pw45: "2 powr of_int (8 - 53) = 1 / (2::real) ^ 45"
  by (simp add: powr_minus_divide)

lemma pw46: "2 powr of_int (7 - 53) = 1 / (2::real) ^ 46"
  by (simp add: powr_minus_divide)

lemma pw47: "2 powr of_int (6 - 53) = 1 / (2::real) ^ 47"
  by (simp add: powr_minus_divide)

text \<open>
  A float \<open>k\<close> of [0, 100] has its J line in [0, 100], and close to \<open>k\<close>. Both
  products are within half a unit in the last place of \<open>3 * k\<close> and \<open>2 * k\<close>, so
  their difference is within \<open>3 / 2 ^ 46\<close> of \<open>k\<close>: that is at most 100 unless
  \<open>k\<close> is 100 or one of the two floats just below it; and rounding is monotone and
  keeps 0 and 100.
\<close>

lemma j_line_range:
  assumes "0 \<le> z" "z \<le> 100"
  shows "0 \<le> binary64 z \<and> binary64 z \<le> 100 \<and>
         0 \<le> j_line (binary64 z) (binary64 z) \<and> j_line (binary64 z) (binary64 z) \<le> 100 \<and>
         \<bar>j_line (binary64 z) (binary64 z) - binary64 z\<bar> \<le> 1 / 2 ^ 44"
proof -
  define k where "k = binary64 z"
  define a where "a = binary64 (3 * k)"
  define b where "b = binary64 (2 * k)"
  have k0: "0 \<le> k" unfolding k_def using assms(1) by (rule binary64_nonneg)
  have k100: "k \<le> 100" unfolding k_def using binary64_mono [OF assms] by (simp add: binary64_100)
  have ba: "b \<le> a" unfolding a_def b_def using k0 by (intro binary64_mono) simp_all
  then have j0: "0 \<le> binary64 (a - b)" by (intro binary64_nonneg) simp
  have "\<bar>binary64 (3 * k) - 3 * k\<bar> \<le> 2 powr of_int (8 - 53)"
    by (rule binary64_err) (use k0 k100 in simp_all)
  then have ea': "\<bar>a - 3 * k\<bar> \<le> 1 / 2 ^ 45" unfolding a_def pw45 .
  have "\<bar>binary64 (2 * k) - 2 * k\<bar> \<le> 2 powr of_int (7 - 53)"
    by (rule binary64_err) (use k0 k100 in simp_all)
  then have eb': "\<bar>b - 2 * k\<bar> \<le> 1 / 2 ^ 46" unfolding b_def pw46 .
  define u :: real where "u = 1 / 2 ^ 46"
  have u: "(1::real) / 2 ^ 45 = 2 * u" "(1::real) / 2 ^ 44 = 4 * u"
    "(1::real) / 2 ^ 47 = u / 2" "0 < u" "u < 1" "3 / 2 ^ 46 = 3 * u"
    by (simp_all add: u_def)
  have ea: "\<bar>a - 3 * k\<bar> \<le> 2 * u" using ea' unfolding u(1) .
  have eb: "\<bar>b - 2 * k\<bar> \<le> u" using eb' unfolding u_def .
  have eab: "\<bar>(a - b) - k\<bar> \<le> 3 * u" using ea eb by linarith
  have ab128: "a - b < 128" using eab k100 u(4,5) by linarith
  have "\<bar>binary64 (a - b) - (a - b)\<bar> \<le> 2 powr of_int (6 - 53)"
    by (rule binary64_err) (use ba ab128 in simp_all)
  then have "\<bar>binary64 (a - b) - (a - b)\<bar> \<le> u / 2" unfolding pw47 u(3) .
  then have "\<bar>binary64 (a - b) - k\<bar> \<le> 4 * u" using eab u(4) by linarith
  then have jk: "\<bar>binary64 (a - b) - k\<bar> \<le> 1 / 2 ^ 44" unfolding u(2) .
  have j100: "binary64 (a - b) \<le> 100"
  proof (cases "k \<le> 100 - 3 / 2 ^ 46")
    case True
    then have "a - b \<le> 100" using eab unfolding u(6) by linarith
    then show ?thesis using binary64_mono [of "a - b" 100] ba by (simp add: binary64_100)
  next
    case False
    have z64: "64 \<le> z"
    proof (rule ccontr)
      assume "\<not> 64 \<le> z"
      then have "k \<le> 64" unfolding k_def
        using binary64_mono [of z 64] assms(1) by (simp add: binary64_64)
      then show False using False by simp
    qed
    define N where "N = round_half_even (z * 2 ^ 46)"
    have kN: "k = of_int N / 2 ^ 46"
      unfolding k_def N_def using binary64_above_one [of 6 z] z64 assms(2) by simp
    have "7036874417766397 < N" "N \<le> 7036874417766400"
      using False k100 unfolding kN by (simp_all add: field_simps)
    then have "N = 7036874417766398 \<or> N = 7036874417766399 \<or> N = 7036874417766400"
      by linarith
    then have "j_line k k \<le> 100"
      unfolding kN using j_line_100 j_line_100_1 j_line_100_2 by auto
    then show ?thesis by (simp add: j_line_def a_def b_def)
  qed
  show ?thesis using k0 k100 j0 j100 jk by (simp add: j_line_def k_def a_def b_def)
qed

subsection \<open>Moving averages never raise for a positive period\<close>

lemma ema_present: "0 < p \<Longrightarrow> p \<le> length xs \<Longrightarrow> \<exists>e. ema xs p = Inr (Some e)"
  by (simp add: ema_def py_div_def ebind_def Let_def)

lemma ema_no_raise: "0 < p \<Longrightarrow> \<exists>v. ema xs p = Inr v"
  by (simp add: ema_def py_div_def ebind_def Let_def)

lemma sma_present: "0 < p \<Longrightarrow> p \<le> length xs \<Longrightarrow> \<exists>m. sma xs p = Inr (Some m)"
  by (simp add: sma_def py_div_def ebind_def)

lemma sma_no_raise: "0 < p \<Longrightarrow> \<exists>v. sma xs p = Inr v"
  by (simp add: sma_def py_div_def ebind_def)

lemma foldl_replicate_fixed: "f c c = c \<Longrightarrow> foldl f c (replicate k c) = c"
  by (induction k) simp_all

lemma ema_replicate: "0 < p \<Longrightarrow> p \<le> n \<Longrightarrow> ema (replicate n c) p = Inr (Some c)"
  by (simp add: ema_def py_div_def ebind_def Let_def min_def sum_list_replicate
      foldl_replicate_fixed)

lemma ema_snoc:
  "0 < p \<Longrightarrow> p \<le> length xs \<Longrightarrow> ema xs p = Inr (Some e) \<Longrightarrow>
   ema (xs @ [x]) p = Inr (Some ((x - e) * (2 / (real p + 1)) + e))"
  by (auto simp add: ema_def py_div_def ebind_def Let_def split: if_splits)

subsection \<open>MACD\<close>

lemma macd_history_no_raise:
  "0 < fast \<Longrightarrow> 0 < slow \<Longrightarrow> \<exists>h. macd_history prices fast slow idx acc = Inr h"
proof (induction idx arbitrary: acc)
  case Nil
  then show ?case by simp
next
  case (Cons i rest)
  obtain ef where ef: "ema (take i prices) fast = Inr ef"
    using ema_no_raise [OF Cons.prems(1)] by blast
  obtain es where es: "ema (take i prices) slow = Inr es"
    using ema_no_raise [OF Cons.prems(2)] by blast
  show ?case
    using Cons.IH [OF Cons.prems] by (simp add: ef es ebind_def)
qed

text \<open>When no prefix EMA is zero, every index of the loop appends one value.\<close>

lemma macd_history_full:
  assumes "0 < fast" "0 < slow"
    and "\<forall>i\<in>set idx. fast \<le> i \<and> slow \<le> i \<and> i \<le> length prices \<and>
           ema (take i prices) fast \<noteq> Inr (Some 0) \<and> ema (take i prices) slow \<noteq> Inr (Some 0)"
  shows "\<exists>h. macd_history prices fast slow idx acc = Inr h \<and> length h = length acc + length idx"
  using assms(3)
proof (induction idx arbitrary: acc)
  case Nil
  then show ?case by simp
next
  case (Cons i rest)
  have i: "fast \<le> length (take i prices)" "slow \<le> length (take i prices)"
    using Cons.prems by simp_all
  obtain ef where ef: "ema (take i prices) fast = Inr (Some ef)"
    using ema_present [OF assms(1) i(1)] by blast
  obtain es where es: "ema (take i prices) slow = Inr (Some es)"
    using ema_present [OF assms(2) i(2)] by blast
  have nz: "ef \<noteq> 0" "es \<noteq> 0"
    using Cons.prems ef es by auto
  have rest: "\<forall>i\<in>set rest. fast \<le> i \<and> slow \<le> i \<and> i \<le> length prices \<and>
           ema (take i prices) fast \<noteq> Inr (Some 0) \<and> ema (take i prices) slow \<noteq> Inr (Some 0)"
    using Cons.prems by simp
  show ?case
    using Cons.IH [OF rest, of "acc @ [ef - es]"] by (simp add: ef es nz ebind_def)
qed

text \<open>
  Claim C1 says that \<open>calculate_macd\<close> (fast 12, slow 26, signal 9) returns a MACD line
  from 26 points on, and a signal line and a histogram exactly from 35 points on. The
  first guard of the function returns three absent values below 35 points, so the claim
  fails at 26 points: the MACD line is absent there.
\<close>

theorem macd_line_absent_at_26_points:
  "26 \<le> length (replicate 26 (1::real)) \<and>
   calculate_macd (replicate 26 1) 12 26 9 = Inr (None, None, None)"
  by (simp add: calculate_macd_def)

text \<open>
  Claim C1 as amended: below 35 points all three components are absent. From 35 points
  on the MACD line is present and is EMA(12) - EMA(26); the signal line is present
  whenever the 12- and 26-point EMAs of every prefix of length 26 up to the whole series
  are non-zero; the histogram is the MACD line minus the signal line whenever the signal
  line is present and non-zero, and it is never present without the signal line.
\<close>

theorem calculate_macd_presence:
  "(length prices < 35 \<longrightarrow> calculate_macd prices 12 26 9 = Inr (None, None, None)) \<and>
   (35 \<le> length prices \<longrightarrow>
      (\<exists>ef es s h.
         ema prices 12 = Inr (Some ef) \<and> ema prices 26 = Inr (Some es) \<and>
         calculate_macd prices 12 26 9 = Inr (Some (ef - es), s, h) \<and>
         ((\<forall>i\<in>{26..length prices}. ema (take i prices) 12 \<noteq> Inr (Some 0) \<and>
                                      ema (take i prices) 26 \<noteq> Inr (Some 0))
            \<longrightarrow> s \<noteq> None) \<and>
         (\<forall>sl. s = Some sl \<and> sl \<noteq> 0 \<longrightarrow> h = Some (ef - es - sl)) \<and>
         (h \<noteq> None \<longrightarrow> s \<noteq> None)))"
proof (intro conjI impI)
  assume "length prices < 35"
  then show "calculate_macd prices 12 26 9 = Inr (None, None, None)"
    by (simp add: calculate_macd_def)
next
  assume len: "35 \<le> length prices"
  obtain ef where ef: "ema prices 12 = Inr (Some ef)"
    using ema_present [of 12 prices] len by auto
  obtain es where es: "ema prices 26 = Inr (Some es)"
    using ema_present [of 26 prices] len by auto
  obtain hist where hist: "macd_history prices 12 26 [26..<length prices + 1] [] = Inr hist"
    using macd_history_no_raise [of 12 26 prices "[26..<length prices + 1]" "[]"] by auto
  have hist': "macd_history prices 12 26 ([26..<length prices] @ [length prices]) [] = Inr hist"
    using hist len by simp
  have full: "9 \<le> length hist"
    if nz: "\<forall>i\<in>{26..length prices}. ema (take i prices) 12 \<noteq> Inr (Some 0) \<and>
                                      ema (take i prices) 26 \<noteq> Inr (Some 0)"
  proof -
    have "\<forall>i\<in>set [26..<length prices + 1]. 12 \<le> i \<and> 26 \<le> i \<and> i \<le> length prices \<and>
           ema (take i prices) 12 \<noteq> Inr (Some 0) \<and> ema (take i prices) 26 \<noteq> Inr (Some 0)"
      using nz by auto
    from macd_history_full [OF _ _ this, of "[]"] hist
    have "length hist = length [26..<length prices + 1]" by simp
    then show ?thesis using len by simp
  qed
  show "\<exists>ef es s h.
         ema prices 12 = Inr (Some ef) \<and> ema prices 26 = Inr (Some es) \<and>
         calculate_macd prices 12 26 9 = Inr (Some (ef - es), s, h) \<and>
         ((\<forall>i\<in>{26..length prices}. ema (take i prices) 12 \<noteq> Inr (Some 0) \<and>
                                      ema (take i prices) 26 \<noteq> Inr (Some 0))
            \<longrightarrow> s \<noteq> None) \<and>
         (\<forall>sl. s = Some sl \<and> sl \<noteq> 0 \<longrightarrow> h = Some (ef - es - sl)) \<and>
         (h \<noteq> None \<longrightarrow> s \<noteq> None)"
  proof (cases "length hist < 9")
    case True
    then have "calculate_macd prices 12 26 9 = Inr (Some (ef - es), None, None)"
      using len by (simp add: calculate_macd_def ef es hist' ebind_def Let_def)
    then show ?thesis using ef es True full by fastforce
  next
    case False
    then obtain m where m: "sma hist 9 = Inr (Some m)"
      using sma_present [of 9 hist] by auto
    have "calculate_macd prices 12 26 9 =
            Inr (Some (ef - es), Some m, if m \<noteq> 0 then Some (ef - es - m) else None)"
      using len False by (simp add: calculate_macd_def ef es hist' m ebind_def Let_def)
    then show ?thesis using ef es by auto
  qed
qed

lemma example_length: "length macd_example_series = 35"
  by (simp add: macd_example_series_def)

lemma example_take: "i \<le> 34 \<Longrightarrow> take i macd_example_series = replicate i 1"
  by (simp add: macd_example_series_def min_def)

lemma example_take_all: "take 35 macd_example_series = macd_example_series"
  by (simp add: macd_example_series_def)

lemma example_ema12: "ema macd_example_series 12 = Inr (Some (15 / 13))"
  unfolding macd_example_series_def
  using ema_snoc [of 12 "replicate 34 1" 1 2] by (simp add: ema_replicate)

lemma example_ema26: "ema macd_example_series 26 = Inr (Some (29 / 27))"
  unfolding macd_example_series_def
  using ema_snoc [of 26 "replicate 34 1" 1 2] by (simp add: ema_replicate)

lemma example_prefix_emas:
  "\<forall>i\<in>{26..length macd_example_series}.
     ema (take i macd_example_series) 12 \<noteq> Inr (Some 0) \<and>
     ema (take i macd_example_series) 26 \<noteq> Inr (Some 0)"
proof
  fix i assume "i \<in> {26..length macd_example_series}"
  then have i: "26 \<le> i" "i \<le> 35" by (simp_all add: example_length)
  show "ema (take i macd_example_series) 12 \<noteq> Inr (Some 0) \<and>
        ema (take i macd_example_series) 26 \<noteq> Inr (Some 0)"
  proof (cases "i = 35")
    case True
    then show ?thesis by (simp add: example_take_all example_ema12 example_ema26)
  next
    case False
    then have "i \<le> 34" using i by simp
    then show ?thesis using i by (simp add: example_take ema_replicate)
  qed
qed

lemma upt_26_36: "[26..<36] = [26, 27, 28, 29, 30, 31, 32, 33, 34, 35 :: nat]"
  by code_simp

lemma example_history:
  "macd_history macd_example_series 12 26 [26..<36] [] =
     Inr [0, 0, 0, 0, 0, 0, 0, 0, 0, 28 / 351]"
  by (simp add: upt_26_36 example_take example_take_all ema_replicate example_ema12
      example_ema26 ebind_def)

lemma example_signal: "sma [0, 0, 0, 0, 0, 0, 0, 0, 0, 28 / 351] 9 = Inr (Some (28 / 3159))"
  by (simp add: sma_def py_div_def py_suffix_def ebind_def)

lemma example_macd:
  "calculate_macd macd_example_series 12 26 9 =
     Inr (Some (28 / 351), Some (28 / 3159), Some (28 / 351 - 28 / 3159))"
proof -
  have u: "[26..<35 + 1] = [26..<36]" by simp
  have l: "length [0, 0, 0, 0, 0, 0, 0, 0, 0, 28 / 351 :: real] = 10" by simp
  show ?thesis
    unfolding calculate_macd_def example_length
    apply (simp only: example_ema12 example_ema26 ebind_def sum.case prod.case option.case
        Let_def u example_history l example_signal)
    apply simp
    done
qed

text \<open>The amended claim at a series of 30 points and at the example series of 35 points.\<close>

theorem calculate_macd_presence_witness:
  "length (replicate 30 (1::real)) < 35 \<and>
   calculate_macd (replicate 30 1) 12 26 9 = Inr (None, None, None) \<and>
   35 \<le> length macd_example_series \<and>
   list_all (\<lambda>i. ema (take i macd_example_series) 12 \<noteq> Inr (Some 0) \<and>
                  ema (take i macd_example_series) 26 \<noteq> Inr (Some 0))
     [26..<length macd_example_series + 1] \<and>
   calculate_macd macd_example_series 12 26 9 =
     Inr (Some (15 / 13 - 29 / 27), Some (28 / 3159), Some (15 / 13 - 29 / 27 - 28 / 3159))"
proof -
  have short: "calculate_macd (replicate 30 1) 12 26 9 = Inr (None, None, None)"
    using calculate_macd_presence [of "replicate 30 1"] by simp
  have len: "35 \<le> length macd_example_series"
    by (simp add: example_length)
  obtain ef es s h where r:
    "ema macd_example_series 12 = Inr (Some ef)" "ema macd_example_series 26 = Inr (Some es)"
    "calculate_macd macd_example_series 12 26 9 = Inr (Some (ef - es), s, h)"
    "s \<noteq> None" "\<forall>sl. s = Some sl \<and> sl \<noteq> 0 \<longrightarrow> h = Some (ef - es - sl)"
    using calculate_macd_presence [of macd_example_series] len example_prefix_emas by blast
  have v: "ef = 15 / 13" "es = 29 / 27"
    using r(1,2) by (simp_all add: example_ema12 example_ema26)
  have s: "s = Some (28 / 3159)"
    using r(3) by (simp add: example_macd)
  then have h: "h = Some (ef - es - 28 / 3159)"
    using r(5) by simp
  have "calculate_macd macd_example_series 12 26 9 =
     Inr (Some (15 / 13 - 29 / 27), Some (28 / 3159), Some (15 / 13 - 29 / 27 - 28 / 3159))"
    using r(3) by (simp only: s h v)
  moreover have "list_all (\<lambda>i. ema (take i macd_example_series) 12 \<noteq> Inr (Some 0) \<and>
                  ema (take i macd_example_series) 26 \<noteq> Inr (Some 0))
     [26..<length macd_example_series + 1]"
    unfolding list_all_iff using example_prefix_emas by auto
  ultimately show ?thesis
    using short len by simp
qed

subsection \<open>Series below the five-point floor\<close>

text \<open>
  Claim C8: for a series of fewer than five records, \<open>calculate_all_indicators\<close>
  returns the record in which every optional indicator is absent, the trend score is 0
  and the signal is hold.
\<close>

theorem short_series_all_absent:
  "length history_data < 5 \<Longrightarrow>
   (\<exists>r. calculate_all_indicators parse history_data = Inr r \<and>
      ma5 r = None \<and> ma10 r = None \<and> ma20 r = None \<and> ma60 r = None \<and>
      ema12 r = None \<and> ema26 r = None \<and>
      macd r = None \<and> macd_signal r = None \<and> macd_hist r = None \<and>
      rsi_6 r = None \<and> rsi_14 r = None \<and>
      boll_upper r = None \<and> boll_middle r = None \<and> boll_lower r = None \<and>
      boll_width r = None \<and>
      kdj_k r = None \<and> kdj_d r = None \<and> kdj_j r = None \<and>
      atr r = None \<and> obv_trend r = None \<and>
      trend_score r = 0 \<and> signal r = Hold)"
  by (simp add: calculate_all_indicators_def default_indicators_def)

theorem short_series_all_absent_witness:
  "length (replicate 4 flat_point) < 5 \<and>
   (\<exists>r. calculate_all_indicators (\<lambda>s. None) (replicate 4 flat_point) = Inr r \<and>
      ma5 r = None \<and> macd r = None \<and> rsi_14 r = None \<and> kdj_j r = None \<and>
      trend_score r = 0 \<and> signal r = Hold)"
proof -
  have "length (replicate 4 flat_point) < 5" by simp
  from this short_series_all_absent [OF this, of "\<lambda>s. None"] show ?thesis by blast
qed

subsection \<open>Maximum drawdown\<close>

lemma dd_step_nonneg: "0 \<le> max_dd s \<Longrightarrow> 0 \<le> max_dd (dd_step s ip)"
  by (simp add: dd_step_def Let_def)

lemma dd_fold_nonneg: "0 \<le> max_dd s \<Longrightarrow> 0 \<le> max_dd (foldl dd_step s ips)"
  by (induction ips arbitrary: s) (simp_all add: dd_step_nonneg)

lemma dd_fold_sorted:
  "max_dd s = 0 \<Longrightarrow> sorted xs \<Longrightarrow> \<forall>x\<in>set xs. peak s \<le> x \<Longrightarrow>
   max_dd (foldl dd_step s (enumerate n xs)) = 0"
proof (induction xs arbitrary: s n)
  case Nil
  then show ?case by simp
next
  case (Cons x xs)
  let ?s = "dd_step s (n, x)"
  have px: "peak s \<le> x" using Cons.prems(3) by simp
  have dd: "max_dd ?s = 0"
    using Cons.prems(1) px by (auto simp add: dd_step_def Let_def)
  have pk: "peak ?s = x"
    using px by (auto simp add: dd_step_def Let_def)
  have "\<forall>y\<in>set xs. peak ?s \<le> y"
    using Cons.prems(2) pk by auto
  moreover have "sorted xs" using Cons.prems(2) by simp
  ultimately show ?case
    using Cons.IH [of ?s "Suc n"] dd by simp
qed

text \<open>
  Claim C6: the maximum drawdown returned by \<open>_calculate_max_drawdown\<close> is never
  negative, and it is 0 for every non-decreasing price series, the empty one included.
\<close>

theorem max_drawdown_nonneg_and_zero:
  "0 \<le> fst (calculate_max_drawdown prices) \<and>
   (sorted prices \<longrightarrow> fst (calculate_max_drawdown prices) = 0)"
proof (cases "prices = []")
  case True
  then show ?thesis by (simp add: calculate_max_drawdown_def)
next
  case False
  let ?s0 = "\<lparr>max_dd = 0, max_dd_duration = 0, peak = hd prices, peak_idx = 0,
               current_duration = 0\<rparr>"
  have r: "fst (calculate_max_drawdown prices) = max_dd (foldl dd_step ?s0 (enumerate 0 prices))"
    using False by (simp add: calculate_max_drawdown_def Let_def)
  have nonneg: "0 \<le> max_dd (foldl dd_step ?s0 (enumerate 0 prices))"
    by (rule dd_fold_nonneg) simp
  have zero: "max_dd (foldl dd_step ?s0 (enumerate 0 prices)) = 0" if "sorted prices"
  proof (rule dd_fold_sorted)
    show "max_dd ?s0 = 0" by simp
    show "sorted prices" by (rule that)
    show "\<forall>x\<in>set prices. peak ?s0 \<le> x"
      using that False by (cases prices) auto
  qed
  show ?thesis using r nonneg zero by simp
qed

theorem max_drawdown_nonneg_and_zero_witness:
  "sorted [1, 2, 2, 3 :: real] \<and> fst (calculate_max_drawdown [1, 2, 2, 3]) = 0 \<and>
   0 \<le> fst (calculate_max_drawdown [4, 2, 3, 1, 5, 4])"
  using max_drawdown_nonneg_and_zero [of "[1, 2, 2, 3]"]
    max_drawdown_nonneg_and_zero [of "[4, 2, 3, 1, 5, 4]"]
  by simp

subsection \<open>RSI\<close>

lemma sum_gains_nonneg: "0 \<le> sum_list (map (\<lambda>c::real. max 0 c) cs)"
  by (rule sum_list_nonneg) auto

lemma sum_losses_nonneg: "0 \<le> sum_list (map (\<lambda>c::real. \<bar>min 0 c\<bar>) cs)"
  by (rule sum_list_nonneg) auto

lemma sum_losses_zero: "\<forall>c\<in>set cs. 0 \<le> c \<Longrightarrow> sum_list (map (\<lambda>c::real. \<bar>min 0 c\<bar>) cs) = 0"
  by (induction cs) auto

lemma rsi_range:
  assumes "calculate_rsi prices period = Inr (Some v)"
  shows "0 \<le> v \<and> v \<le> 100"
proof -
  define G where "G = sum_list (map (\<lambda>c. max 0 c) (py_suffix period (changes prices))) / real period"
  define L where "L = sum_list (map (\<lambda>c. \<bar>min 0 c\<bar>) (py_suffix period (changes prices))) / real period"
  have p: "period \<noteq> 0" and len: "\<not> length prices < period + 1"
    using assms by (auto simp add: calculate_rsi_def py_div_def ebind_def Let_def split: if_splits)
  have eq: "calculate_rsi prices period =
      (if L = 0 then Inr (Some 100)
       else ebind (py_div G L) (\<lambda>rs. ebind (py_div 100 (1 + rs)) (\<lambda>q. Inr (Some (100 - q)))))"
    using p len unfolding calculate_rsi_def G_def L_def
    by (simp add: py_div_def ebind_def Let_def)
  have g: "0 \<le> G" unfolding G_def using sum_gains_nonneg by simp
  have l: "0 \<le> L" unfolding L_def using sum_losses_nonneg by simp
  show ?thesis
  proof (cases "L = 0")
    case True
    then show ?thesis using eq assms by simp
  next
    case False
    then have lpos: "0 < L" using l by simp
    have rs: "0 \<le> G / L" using g lpos by simp
    then have ne: "1 + G / L \<noteq> 0" by linarith
    have v: "v = 100 - 100 / (1 + G / L)"
      using eq assms False ne by (simp add: py_div_def ebind_def)
    have "0 < 1 + G / L" "1 \<le> 1 + G / L" using rs by linarith+
    then have "0 \<le> 100 / (1 + G / L)" "100 / (1 + G / L) \<le> 100"
      by (simp_all add: divide_le_eq)
    then show ?thesis using v by linarith
  qed
qed

text \<open>
  Claim C5: \<open>calculate_rsi\<close> returns absent when the series has fewer than
  \<open>period + 1\<close> points; a value it returns lies in [0, 100]; and for a period of at
  least one day it returns exactly 100 whenever the series has the \<open>period + 1\<close>
  points and none of the last \<open>period\<close> deltas is negative. (With period 0 there is
  no average: \<open>sum(gains) / period\<close> raises ZeroDivisionError on a non-empty series.)
\<close>

theorem calculate_rsi_properties:
  "(length prices < period + 1 \<longrightarrow> calculate_rsi prices period = Inr None) \<and>
   (\<forall>v. calculate_rsi prices period = Inr (Some v) \<longrightarrow> 0 \<le> v \<and> v \<le> 100) \<and>
   (0 < period \<and> period + 1 \<le> length prices \<and>
    (\<forall>c\<in>set (py_suffix period (changes prices)). 0 \<le> c)
      \<longrightarrow> calculate_rsi prices period = Inr (Some 100))"
proof (intro conjI allI impI)
  assume "length prices < period + 1"
  then show "calculate_rsi prices period = Inr None"
    by (simp add: calculate_rsi_def)
next
  fix v assume "calculate_rsi prices period = Inr (Some v)"
  then show "0 \<le> v" "v \<le> 100" using rsi_range by blast+
next
  assume a: "0 < period \<and> period + 1 \<le> length prices \<and>
    (\<forall>c\<in>set (py_suffix period (changes prices)). 0 \<le> c)"
  then have "sum_list (map (\<lambda>c. \<bar>min 0 c\<bar>) (py_suffix period (changes prices))) = 0"
    using sum_losses_zero by blast
  then show "calculate_rsi prices period = Inr (Some 100)"
    using a by (simp add: calculate_rsi_def py_div_def ebind_def Let_def)
qed

lemma changes_3: "changes [3, 1, 2] = [- 2, 1]"
  by (simp add: changes_def upt_rec)

lemma changes_up: "changes [1, 2, 3] = [1, 1]"
  by (simp add: changes_def upt_rec)

lemma rsi_example: "calculate_rsi [3, 1, 2] 2 = Inr (Some (100 / 3))"
  by (simp add: calculate_rsi_def changes_3 py_suffix_def py_div_def ebind_def)

theorem calculate_rsi_properties_witness:
  "length [1 :: real] < 2 + 1 \<and> calculate_rsi [1] 2 = Inr None \<and>
   calculate_rsi [3, 1, 2] 2 = Inr (Some (100 / 3)) \<and> (0 :: real) \<le> 100 / 3 \<and>
   (100 :: real) / 3 \<le> 100 \<and>
   (0 :: nat) < 2 \<and> 2 + 1 \<le> length [1, 2, 3 :: real] \<and>
   list_all (\<lambda>c. 0 \<le> c) (py_suffix 2 (changes [1, 2, 3])) \<and>
   calculate_rsi [1, 2, 3] 2 = Inr (Some 100)"
proof -
  have a: "calculate_rsi [1] 2 = Inr None"
    using calculate_rsi_properties [of "[1]" 2] by simp
  have b: "(0 :: real) \<le> 100 / 3 \<and> (100 :: real) / 3 \<le> 100"
    using calculate_rsi_properties [of "[3, 1, 2]" 2] rsi_example by blast
  have h: "\<forall>c\<in>set (py_suffix 2 (changes [1, 2, 3])). 0 \<le> c"
    by (simp add: changes_up py_suffix_def)
  have c: "calculate_rsi [1, 2, 3] 2 = Inr (Some 100)"
    using calculate_rsi_properties [of "[1, 2, 3]" 2] h by simp
  have l: "list_all (\<lambda>c. 0 \<le> c) (py_suffix 2 (changes [1, 2, 3]))"
    using h by (simp add: list_all_iff)
  show ?thesis using a b c l rsi_example by simp
qed

subsection \<open>What the indicators raise on a series read by \<open>calculate_all_indicators\<close>\<close>

lemma macd_no_raise:
  assumes "0 < fast" "0 < slow" "0 < sig_period"
  shows "\<exists>m s h. calculate_macd prices fast slow sig_period = Inr (m, s, h)"
proof -
  obtain ef where ef: "ema prices fast = Inr ef" using ema_no_raise [OF assms(1)] by blast
  obtain es where es: "ema prices slow = Inr es" using ema_no_raise [OF assms(2)] by blast
  obtain hist where hist:
    "macd_history prices fast slow [slow..<length prices + 1] [] = Inr hist"
    using macd_history_no_raise [OF assms(1,2)] by blast
  obtain sl where sl: "sma hist sig_period = Inr sl" using sma_no_raise [OF assms(3)] by blast
  have "\<exists>t. calculate_macd prices fast slow sig_period = Inr t"
    unfolding calculate_macd_def
    by (simp only: ef es hist sl ebind_def Let_def sum.case prod.case split: option.split if_split)
       simp
  then show ?thesis by (metis prod_cases3)
qed

lemma rsi_no_raise:
  assumes "0 < period"
  shows "\<exists>v. calculate_rsi prices period = Inr v"
proof (cases "length prices < period + 1")
  case True
  then show ?thesis by (simp add: calculate_rsi_def)
next
  case False
  define G where "G = sum_list (map (\<lambda>c. max 0 c) (py_suffix period (changes prices))) / real period"
  define L where "L = sum_list (map (\<lambda>c. \<bar>min 0 c\<bar>) (py_suffix period (changes prices))) / real period"
  have eq: "calculate_rsi prices period =
      (if L = 0 then Inr (Some 100)
       else ebind (py_div G L) (\<lambda>rs. ebind (py_div 100 (1 + rs)) (\<lambda>q. Inr (Some (100 - q)))))"
    using assms False unfolding calculate_rsi_def G_def L_def
    by (simp add: py_div_def ebind_def Let_def)
  have g: "0 \<le> G" unfolding G_def using sum_gains_nonneg by simp
  have l: "0 \<le> L" unfolding L_def using sum_losses_nonneg by simp
  show ?thesis
  proof (cases "L = 0")
    case True
    then show ?thesis using eq by simp
  next
    case False
    then have "0 < L" using l by simp
    then have "0 \<le> G / L" using g by simp
    then have "1 + G / L \<noteq> 0" by linarith
    then show ?thesis using eq False by (simp add: py_div_def ebind_def)
  qed
qed

lemma float_limit_pos: "0 < float_limit"
  by (simp add: float_limit_def)

lemma py_square_0: "py_square 0 = Inr 0"
  using float_limit_pos by (simp add: py_square_def)

lemma emap_replicate: "f x = Inr y \<Longrightarrow> emap f (replicate n x) = Inr (replicate n y)"
  by (induction n) (simp_all add: ebind_def)

lemma emap_square_error: "emap (\<lambda>x. py_square (f x)) xs = Inl e \<Longrightarrow> e = OverflowError"
  by (induction xs arbitrary: e)
     (auto simp add: ebind_def py_square_def split: sum.splits if_splits)

text \<open>The only exception of \<open>_std\<close> is the OverflowError of a square.\<close>

lemma std_error: "std data = Inl e \<Longrightarrow> e = OverflowError"
  using emap_square_error [of "\<lambda>x. x - sum_list data / real (length data)" data e]
  by (auto simp add: std_def Let_def ebind_def split: if_splits sum.splits)

lemma emap_square_small:
  "\<forall>x\<in>set xs. (f x)\<^sup>2 < float_limit \<Longrightarrow>
   emap (\<lambda>x. py_square (f x)) xs = Inr (map (\<lambda>x. (f x)\<^sup>2) xs)"
  by (induction xs) (simp_all add: ebind_def py_square_def)

text \<open>
  \<open>_std\<close> returns when every squared deviation from the mean is in the float range.
\<close>

lemma std_returns:
  "\<forall>x\<in>set data. (x - sum_list data / real (length data))\<^sup>2 < float_limit \<Longrightarrow>
   \<exists>v. std data = Inr v"
  using emap_square_small [of data "\<lambda>x. x - sum_list data / real (length data)"]
  by (simp add: std_def Let_def ebind_def)

lemma bollinger_error:
  "0 < period \<Longrightarrow> calculate_bollinger prices period k = Inl e \<Longrightarrow> e = OverflowError"
  using std_error [of "py_suffix period prices" e]
  by (auto simp add: calculate_bollinger_def sma_def py_div_def ebind_def Let_def
      split: if_splits sum.splits)

lemma atr_no_raise:
  assumes "0 < period" "length highs = length closes" "length lows = length closes"
  shows "\<exists>v. calculate_atr highs lows closes period = Inr v"
  using assms by (simp add: calculate_atr_def py_div_def ebind_def Let_def)

lemma extract_lengths:
  "length (extract_closes parse h) = length h"
  "length (extract_highs parse h) = length h"
  "length (extract_lows parse h) = length h"
  by (simp_all add: extract_closes_def extract_highs_def extract_lows_def)


lemma width_no_raise: "\<exists>w. bollinger_width upper middle lower = Inr w"
  by (auto simp add: bollinger_width_def truthy_def py_div_def ebind_def split: option.splits)

lemma ma_score_ignores_result:
  "ma_score cp (ind\<lparr>trend_score := a, signal := b\<rparr>) = ma_score cp ind"
  unfolding ma_score_def by (simp split del: if_split cong: if_cong)

lemma macd_score_ignores_result:
  "macd_score (ind\<lparr>trend_score := a, signal := b\<rparr>) = macd_score ind"
  unfolding macd_score_def
  by (cases "macd_hist ind") (simp_all split del: if_split cong: if_cong)

lemma rsi_score_ignores_result:
  "rsi_score (ind\<lparr>trend_score := a, signal := b\<rparr>) = rsi_score ind"
  unfolding rsi_score_def by (simp split del: if_split cong: if_cong)

lemma kdj_score_ignores_result:
  "kdj_score (ind\<lparr>trend_score := a, signal := b\<rparr>) = kdj_score ind"
  unfolding kdj_score_def by (simp split del: if_split cong: if_cong)

lemma calculate_signal_ignores_result:
  "calculate_signal cp (ind\<lparr>trend_score := a, signal := b\<rparr>) = calculate_signal cp ind"
  unfolding calculate_signal_def
  by (simp only: ma_score_ignores_result macd_score_ignores_result rsi_score_ignores_result
      kdj_score_ignores_result)

text \<open>
  From five records on, \<open>calculate_all_indicators\<close> raises what
  \<open>calculate_bollinger\<close> or \<open>calculate_kdj\<close> raises on the extracted closes, highs
  and lows, and otherwise returns a record whose fields are the results of the indicator
  functions.
\<close>

lemma all_indicators_cases:
  fixes parse :: "string \<Rightarrow> real option" and h :: "point list"
  assumes "5 \<le> length h"
  defines "closes \<equiv> extract_closes parse h"
    and "highs \<equiv> extract_highs parse h"
    and "lows \<equiv> extract_lows parse h"
  shows "(\<exists>e. calculate_all_indicators parse h = Inl e \<and>
            (calculate_bollinger closes 20 2 = Inl e \<or>
             calculate_kdj highs lows closes 9 = Inl e)) \<or>
         (\<exists>r kdj. calculate_all_indicators parse h = Inr r \<and>
           sma closes 5 = Inr (ma5 r) \<and> sma closes 10 = Inr (ma10 r) \<and>
           sma closes 20 = Inr (ma20 r) \<and>
           calculate_macd closes 12 26 9 = Inr (macd r, macd_signal r, macd_hist r) \<and>
           calculate_rsi closes 6 = Inr (rsi_6 r) \<and>
           calculate_rsi closes 14 = Inr (rsi_14 r) \<and>
           calculate_bollinger closes 20 2 = Inr (boll_upper r, boll_middle r, boll_lower r) \<and>
           bollinger_width (boll_upper r) (boll_middle r) (boll_lower r) = Inr (boll_width r) \<and>
           calculate_kdj highs lows closes 9 = Inr kdj \<and>
           kdj_k r = map_option fst kdj \<and> kdj_d r = map_option (fst \<circ> snd) kdj \<and>
           kdj_j r = map_option (snd \<circ> snd) kdj \<and>
           (trend_score r, signal r) = calculate_signal (last closes) r)"
proof -
  have len: "length closes = length h" "length highs = length closes" "length lows = length closes"
    by (simp_all add: closes_def highs_def lows_def extract_lengths)
  obtain v5 where v5: "sma closes 5 = Inr v5" using sma_no_raise [of 5] by auto
  obtain v10 where v10: "sma closes 10 = Inr v10" using sma_no_raise [of 10] by auto
  obtain v20 where v20: "sma closes 20 = Inr v20" using sma_no_raise [of 20] by auto
  obtain v60 where v60: "sma closes 60 = Inr v60" using sma_no_raise [of 60] by auto
  obtain e12 where e12: "ema closes 12 = Inr e12" using ema_no_raise [of 12] by auto
  obtain e26 where e26: "ema closes 26 = Inr e26" using ema_no_raise [of 26] by auto
  obtain m s hh where macd: "calculate_macd closes 12 26 9 = Inr (m, s, hh)"
    using macd_no_raise [of 12 26 9 closes] by auto
  obtain r6 where r6: "calculate_rsi closes 6 = Inr r6" using rsi_no_raise [of 6] by auto
  obtain r14 where r14: "calculate_rsi closes 14 = Inr r14" using rsi_no_raise [of 14] by auto
  have guard: "(h = [] \<or> length h < 5) = False"
    using assms(1) by auto
  show ?thesis
  proof (cases "calculate_bollinger closes 20 2")
    case (Inl e)
    have "calculate_all_indicators parse h = Inl e"
      unfolding calculate_all_indicators_def
      by (simp only: guard if_False closes_def[symmetric] highs_def[symmetric]
          lows_def[symmetric] Let_def v5 v10 v20 v60 e12 e26 macd r6 r14 Inl
          ebind_def sum.case prod.case)
    then show ?thesis using Inl by blast
  next
    case (Inr b)
    obtain u mid l where b: "b = (u, mid, l)" by (cases b) auto
    have boll: "calculate_bollinger closes 20 2 = Inr (u, mid, l)" using Inr b by simp
    obtain w where w: "bollinger_width u mid l = Inr w"
      using width_no_raise by blast
    show ?thesis
    proof (cases "calculate_kdj highs lows closes 9")
      case (Inl e)
      have "calculate_all_indicators parse h = Inl e"
        unfolding calculate_all_indicators_def
        by (simp only: guard if_False closes_def[symmetric] highs_def[symmetric]
            lows_def[symmetric] Let_def v5 v10 v20 v60 e12 e26 macd r6 r14 boll w Inl
            ebind_def sum.case prod.case)
      then show ?thesis using Inl by blast
    next
      case (Inr kdj)
      note kdj = Inr
      have "\<exists>v. calculate_atr highs lows closes 14 = Inr v"
        by (rule atr_no_raise) (simp_all add: len(2,3))
      then obtain a where a: "calculate_atr highs lows closes 14 = Inr a" by blast
      have "closes \<noteq> []" using assms(1) len(1) by auto
      then have cp: "py_last closes = Inr (last closes)"
        by (simp add: py_last_def)
      define ind where "ind = \<lparr>ma5 = v5, ma10 = v10, ma20 = v20, ma60 = v60,
                     ema12 = e12, ema26 = e26,
                     macd = m, macd_signal = s, macd_hist = hh,
                     rsi_6 = r6, rsi_14 = r14,
                     boll_upper = u, boll_middle = mid, boll_lower = l,
                     boll_width = w,
                     kdj_k = map_option fst kdj,
                     kdj_d = map_option (fst \<circ> snd) kdj,
                     kdj_j = map_option (snd \<circ> snd) kdj,
                     atr = a, obv_trend = None,
                     trend_score = 0, signal = Hold\<rparr>"
      define r where "r = ind\<lparr>trend_score := fst (calculate_signal (last closes) ind),
                    signal := snd (calculate_signal (last closes) ind)\<rparr>"
      have res: "calculate_all_indicators parse h = Inr r"
        unfolding calculate_all_indicators_def
        by (simp only: guard if_False closes_def[symmetric] highs_def[symmetric]
            lows_def[symmetric] Let_def v5 v10 v20 v60 e12 e26 macd r6 r14 boll w kdj a cp
            ebind_def sum.case prod.case fst_conv snd_conv ind_def[symmetric] case_prod_beta
            r_def[symmetric])
      have sel: "ma5 r = v5" "ma10 r = v10" "ma20 r = v20" "macd r = m" "macd_signal r = s"
        "macd_hist r = hh" "rsi_6 r = r6" "rsi_14 r = r14" "boll_upper r = u"
        "boll_middle r = mid" "boll_lower r = l" "boll_width r = w"
        "kdj_k r = map_option fst kdj"
        "kdj_d r = map_option (fst \<circ> snd) kdj" "kdj_j r = map_option (snd \<circ> snd) kdj"
        by (simp_all add: r_def ind_def)
      have sg: "(trend_score r, signal r) = calculate_signal (last closes) r"
        unfolding r_def by (simp add: calculate_signal_ignores_result)
      show ?thesis
        apply (rule disjI2)
        apply (rule exI [of _ r])
        apply (rule exI [of _ kdj])
        apply (simp only: sel)
        apply (simp only: res v5 v10 v20 macd r6 r14 boll w kdj sg simp_thms)
        done
    qed
  qed
qed

lemma all_indicators_result:
  assumes "5 \<le> length h" "calculate_all_indicators parse h = Inr r"
  shows "\<exists>kdj.
           sma (extract_closes parse h) 5 = Inr (ma5 r) \<and>
           sma (extract_closes parse h) 10 = Inr (ma10 r) \<and>
           sma (extract_closes parse h) 20 = Inr (ma20 r) \<and>
           calculate_macd (extract_closes parse h) 12 26 9
             = Inr (macd r, macd_signal r, macd_hist r) \<and>
           calculate_rsi (extract_closes parse h) 6 = Inr (rsi_6 r) \<and>
           calculate_rsi (extract_closes parse h) 14 = Inr (rsi_14 r) \<and>
           calculate_bollinger (extract_closes parse h) 20 2
             = Inr (boll_upper r, boll_middle r, boll_lower r) \<and>
           bollinger_width (boll_upper r) (boll_middle r) (boll_lower r) = Inr (boll_width r) \<and>
           calculate_kdj (extract_highs parse h) (extract_lows parse h)
             (extract_closes parse h) 9 = Inr kdj \<and>
           kdj_k r = map_option fst kdj \<and> kdj_d r = map_option (fst \<circ> snd) kdj \<and>
           kdj_j r = map_option (snd \<circ> snd) kdj \<and>
           (trend_score r, signal r) = calculate_signal (last (extract_closes parse h)) r"
  using all_indicators_cases [OF assms(1), of parse] assms(2)
  by (elim disjE exE conjE) simp_all

lemma all_indicators_returns:
  assumes "5 \<le> length h"
    and "calculate_bollinger (extract_closes parse h) 20 2 = Inr b"
    and "calculate_kdj (extract_highs parse h) (extract_lows parse h)
           (extract_closes parse h) 9 = Inr v"
  shows "\<exists>r. calculate_all_indicators parse h = Inr r"
  using all_indicators_cases [OF assms(1), of parse] assms(2,3)
  by (elim disjE exE conjE) auto

subsection \<open>The series of 30 equal closes\<close>

lemma flat_closes: "extract_closes parse flat_series = replicate 30 100"
  by (simp add: flat_series_def extract_closes_def flat_point_def dict_get_def safe_float_def)

lemma flat_highs: "extract_highs parse flat_series = replicate 30 100"
  unfolding extract_highs_def flat_closes
  by (simp add: flat_series_def zip_replicate flat_point_def dict_get_def safe_float_def)

lemma flat_lows: "extract_lows parse flat_series = replicate 30 100"
  unfolding extract_lows_def flat_closes
  by (simp add: flat_series_def zip_replicate flat_point_def dict_get_def safe_float_def)

lemma py_suffix_replicate: "0 < p \<Longrightarrow> p \<le> n \<Longrightarrow> py_suffix p (replicate n c) = replicate p c"
  by (simp add: py_suffix_def)

lemma sma_replicate: "0 < p \<Longrightarrow> p \<le> n \<Longrightarrow> sma (replicate n c) p = Inr (Some c)"
  by (simp add: sma_def py_suffix_replicate sum_list_replicate py_div_def ebind_def)

lemma changes_replicate: "changes (replicate n c) = replicate (n - 1) 0"
proof -
  have "map (\<lambda>i. replicate n c ! i - replicate n c ! (i - 1)) [1..<n] = map (\<lambda>i. 0) [1..<n]"
    by (rule map_cong) auto
  then show ?thesis by (simp add: changes_def map_replicate_const)
qed

lemma rsi_replicate:
  "0 < p \<Longrightarrow> p + 1 \<le> n \<Longrightarrow> calculate_rsi (replicate n c) p = Inr (Some 100)"
  by (simp add: calculate_rsi_def changes_replicate py_suffix_replicate sum_list_replicate
      py_div_def ebind_def)

lemma std_replicate: "std (replicate n c) = Inr 0"
proof (cases "n < 2")
  case True
  then show ?thesis by (simp add: std_def)
next
  case False
  then have m: "sum_list (replicate n c) / real n = c"
    by (simp add: sum_list_replicate)
  have "emap (\<lambda>x. py_square (x - c)) (replicate n c) = Inr (replicate n 0)"
    by (rule emap_replicate) (simp add: py_square_0)
  then show ?thesis using False m
    by (simp add: std_def Let_def ebind_def sum_list_replicate)
qed

lemma bollinger_replicate:
  "0 < p \<Longrightarrow> p \<le> n \<Longrightarrow>
   calculate_bollinger (replicate n c) p k = Inr (Some c, Some c, Some c)"
  by (simp add: calculate_bollinger_def sma_replicate py_suffix_replicate std_replicate ebind_def)

lemma kdj_replicate:
  "0 < p \<Longrightarrow> p \<le> n \<Longrightarrow>
   calculate_kdj (replicate n c) (replicate n c) (replicate n c) p = Inr (Some (50, 50, 50))"
  by (simp add: calculate_kdj_def py_suffix_replicate py_max_def py_min_def ebind_def j_line_50)

lemma flat_series_indicators:
  "\<exists>r. calculate_all_indicators parse flat_series = Inr r \<and>
      ma5 r = Some 100 \<and> ma10 r = Some 100 \<and> ma20 r = Some 100 \<and>
      macd_hist r = None \<and> rsi_6 r = Some 100 \<and> rsi_14 r = Some 100 \<and>
      boll_upper r = Some 100 \<and> boll_middle r = Some 100 \<and> boll_lower r = Some 100 \<and>
      boll_width r = Some 0 \<and> kdj_k r = Some 50 \<and> kdj_d r = Some 50 \<and> kdj_j r = Some 50 \<and>
      trend_score r = - 25 \<and> signal r = Hold"
proof -
  have len: "5 \<le> length flat_series" by (simp add: flat_series_def)
  have macd: "calculate_macd (replicate 30 100) 12 26 9 = Inr (None, None, None)"
    by (simp add: calculate_macd_def)
  have "\<exists>r. calculate_all_indicators parse flat_series = Inr r"
    by (rule all_indicators_returns [OF len]; unfold flat_closes flat_highs flat_lows)
       (rule bollinger_replicate kdj_replicate; simp)+
  then obtain r where r1: "calculate_all_indicators parse flat_series = Inr r" by blast
  from all_indicators_result [OF len r1]
  obtain kdj where r:
    "calculate_all_indicators parse flat_series = Inr r"
    "Inr (Some 100) = Inr (ma5 r)" "Inr (Some 100) = Inr (ma10 r)"
    "Inr (Some 100) = Inr (ma20 r)"
    "Inr (None, None, None) = Inr (macd r, macd_signal r, macd_hist r)"
    "Inr (Some 100) = Inr (rsi_6 r)"
    "Inr (Some 100) = Inr (rsi_14 r)"
    "Inr (Some 100, Some 100, Some 100) = Inr (boll_upper r, boll_middle r, boll_lower r)"
    "bollinger_width (boll_upper r) (boll_middle r) (boll_lower r) = Inr (boll_width r)"
    "Inr (Some (50, 50, 50)) = Inr kdj"
    "kdj_k r = map_option fst kdj" "kdj_d r = map_option (fst \<circ> snd) kdj"
    "kdj_j r = map_option (snd \<circ> snd) kdj"
    "(trend_score r, signal r) = calculate_signal (last (replicate 30 100)) r"
    unfolding flat_closes flat_highs flat_lows
    using r1 by (simp only: sma_replicate rsi_replicate bollinger_replicate kdj_replicate macd)
      auto
  have f: "ma5 r = Some 100" "ma10 r = Some 100" "ma20 r = Some 100" "macd_hist r = None"
    "rsi_6 r = Some 100" "rsi_14 r = Some 100" "boll_upper r = Some 100" "boll_middle r = Some 100"
    "boll_lower r = Some 100" "kdj_k r = Some 50" "kdj_d r = Some 50" "kdj_j r = Some 50"
    using r(2-8,10-13) by auto
  have w: "boll_width r = Some 0"
    using r(9) by (simp add: f bollinger_width_def truthy_def py_div_def ebind_def)
  have ma: "ma_score 100 r = 0"
    by (simp add: ma_score_def f truthy_def)
  have mh: "macd_score r = 0"
    by (simp add: macd_score_def f)
  have rs: "rsi_score r = - 25"
    by (simp add: rsi_score_def f truthy_def)
  have kd: "kdj_score r = 0"
    by (simp add: kdj_score_def f)
  have "calculate_signal 100 r = (- 25, Hold)"
    by (simp add: calculate_signal_def ma mh rs kd)
  then have sc: "trend_score r = - 25" "signal r = Hold"
    using r(14) by simp_all
  show ?thesis
    using r(1) f w sc by blast
qed

text \<open>
  Claim C2 says that the series of 30 records with close, high and low all 100 gets
  MA5 = MA10 = MA20 = 100, RSI 100, Bollinger width 0, trend score 0 and the hold signal.
  The trend score is not 0: an RSI of 100 is above 70 and costs 25 points.
\<close>

theorem flat_series_score_not_zero:
  "map_sum id trend_score (calculate_all_indicators Map.empty flat_series) = Inr (- 25) \<and>
   map_sum id trend_score (calculate_all_indicators Map.empty flat_series) \<noteq> Inr 0"
proof -
  obtain r where "calculate_all_indicators Map.empty flat_series = Inr r" "trend_score r = - 25"
    using flat_series_indicators [of Map.empty] by blast
  then show ?thesis by simp
qed

text \<open>
  Claim C2 as amended: for that series \<open>calculate_all_indicators\<close> returns
  MA5 = MA10 = MA20 = 100, RSI(6) = RSI(14) = 100, the three Bollinger bands at 100 with
  width 0, trend score -25 (the RSI above 70 is the only part that scores) and the hold
  signal.
\<close>

theorem flat_series_result:
  "\<exists>r. calculate_all_indicators parse flat_series = Inr r \<and>
      ma5 r = Some 100 \<and> ma10 r = Some 100 \<and> ma20 r = Some 100 \<and>
      rsi_6 r = Some 100 \<and> rsi_14 r = Some 100 \<and>
      boll_upper r = Some 100 \<and> boll_middle r = Some 100 \<and> boll_lower r = Some 100 \<and>
      boll_width r = Some 0 \<and> trend_score r = - 25 \<and> signal r = Hold"
  using flat_series_indicators [of parse] by blast

subsection \<open>KDJ\<close>

lemma kdj_value:
  assumes "calculate_kdj highs lows closes period = Inr (Some (k, d, j))"
  shows "k = d \<and> j = j_line k d \<and>
         (k = 50 \<or>
          (binary64 (Max (set (py_suffix period highs)) - Min (set (py_suffix period lows))) \<noteq> 0 \<and>
           k = binary64 (binary64
                 (binary64 (last closes - Min (set (py_suffix period lows))) /
                  binary64 (Max (set (py_suffix period highs)) - Min (set (py_suffix period lows))))
                 * 100)))"
  using assms
  by (auto simp add: calculate_kdj_def py_max_def py_min_def py_last_def py_div_def ebind_def
      Let_def split: if_splits)

lemma kdj_range:
  assumes "calculate_kdj highs lows closes period = Inr (Some (k, d, j))"
    and "Min (set (py_suffix period lows)) \<le> last closes"
    and "last closes \<le> Max (set (py_suffix period highs))"
  shows "0 \<le> k \<and> k \<le> 100 \<and> 0 \<le> j \<and> j \<le> 100 \<and> \<bar>j - k\<bar> \<le> 1 / 2 ^ 44"
proof -
  define hi where "hi = Max (set (py_suffix period highs))"
  define lo where "lo = Min (set (py_suffix period lows))"
  define c where "c = last closes"
  have b: "lo \<le> c" "c \<le> hi" using assms(2,3) by (simp_all add: hi_def lo_def c_def)
  have v: "k = d" "j = j_line k d"
    "k = 50 \<or> (binary64 (hi - lo) \<noteq> 0 \<and>
               k = binary64 (binary64 (binary64 (c - lo) / binary64 (hi - lo)) * 100))"
    using kdj_value [OF assms(1)] unfolding hi_def lo_def c_def by blast+
  have "\<exists>z. 0 \<le> z \<and> z \<le> 100 \<and> k = binary64 z"
    using v(3)
  proof
    assume "k = 50"
    then have "0 \<le> (50::real) \<and> (50::real) \<le> 100 \<and> k = binary64 50"
      by (simp add: binary64_50)
    then show ?thesis by blast
  next
    assume a: "binary64 (hi - lo) \<noteq> 0 \<and>
               k = binary64 (binary64 (binary64 (c - lo) / binary64 (hi - lo)) * 100)"
    define A where "A = binary64 (c - lo)"
    define B where "B = binary64 (hi - lo)"
    define q where "q = A / B"
    have A0: "0 \<le> A" unfolding A_def using b by (intro binary64_nonneg) simp
    have AB: "A \<le> B" unfolding A_def B_def using b by (intro binary64_mono) simp_all
    have B0: "0 < B" using a A0 AB by (simp add: B_def)
    have q0: "0 \<le> q" unfolding q_def using A0 B0 by simp
    have q1: "q \<le> 1" unfolding q_def using AB B0 by simp
    have f0: "0 \<le> binary64 q" using q0 by (rule binary64_nonneg)
    have f1: "binary64 q \<le> 1" using binary64_mono [OF q0 q1] by (simp add: binary64_1)
    have "0 \<le> binary64 q * 100 \<and> binary64 q * 100 \<le> 100 \<and> k = binary64 (binary64 q * 100)"
      using f0 f1 a by (simp add: q_def A_def B_def)
    then show ?thesis by blast
  qed
  then obtain z where z: "0 \<le> z" "z \<le> 100" "k = binary64 z" by blast
  show ?thesis
    using j_line_range [OF z(1,2)] v(1,2) z(3) by simp
qed

lemma binary64_1000: "binary64 1000 = 1000"
  using binary64_above_one [of 9 1000] by (simp add: round_half_even_def)

lemma binary64_thousandth: "binary64 (1 / 1000) = 4611686018427388 / 2 ^ 62"
  using binary64_below_one [of 10 "1 / 1000"] by (simp add: round_half_even_def)

lemma binary64_tenth: "binary64 (4611686018427388 / 2 ^ 62 * 100) = 7205759403792794 / 2 ^ 56"
  using binary64_below_one [of 4 "4611686018427388 / 2 ^ 62 * 100"]
  by (simp add: round_half_even_def)

lemma binary64_3k: "binary64 (3 * (7205759403792794 / 2 ^ 56)) = 5404319552844596 / 2 ^ 54"
  using binary64_below_one [of 2 "3 * (7205759403792794 / 2 ^ 56)"]
  by (simp add: round_half_even_def)

lemma binary64_2k: "binary64 (2 * (7205759403792794 / 2 ^ 56)) = 7205759403792794 / 2 ^ 55"
  using binary64_below_one [of 3 "2 * (7205759403792794 / 2 ^ 56)"]
  by (simp add: round_half_even_def)

lemma binary64_j: "binary64 (5404319552844596 / 2 ^ 54 - 7205759403792794 / 2 ^ 55)
             = 7205759403792796 / 2 ^ 56"
  using binary64_below_one [of 4 "5404319552844596 / 2 ^ 54 - 7205759403792794 / 2 ^ 55"]
  by (simp add: round_half_even_def)

lemma j_line_tenth:
  "j_line (7205759403792794 / 2 ^ 56) (7205759403792794 / 2 ^ 56) = 7205759403792796 / 2 ^ 56"
  unfolding j_line_def binary64_3k binary64_2k binary64_j ..

lemma kdj_tenth:
  "calculate_kdj (replicate 9 1000) (replicate 9 0) (replicate 8 500 @ [1]) 9 =
     Inr (Some (7205759403792794 / 2 ^ 56, 7205759403792794 / 2 ^ 56,
                7205759403792796 / 2 ^ 56))"
proof -
  have m: "py_max (py_suffix 9 (replicate 9 1000)) = Inr 1000"
    "py_min (py_suffix 9 (replicate 9 0)) = Inr 0"
    "py_last (replicate 8 500 @ [1 :: real]) = Inr 1"
    by (simp_all add: py_max_def py_min_def py_last_def py_suffix_def)
  have q: "py_div (binary64 (1 - 0)) (binary64 (1000 - 0)) = Inr (1 / 1000)"
    by (simp add: binary64_1 binary64_1000 py_div_def)
  have g: "(length (replicate 8 (500 :: real) @ [1]) < 9) = False" "((1000 :: real) = 0) = False"
    by simp_all
  show ?thesis
    unfolding calculate_kdj_def
    by (simp only: g if_False m q binary64_thousandth binary64_tenth j_line_tenth
        ebind_def sum.case Let_def)
qed

text \<open>
  Claim C10 says that K, D and J are equal whenever \<open>calculate_kdj\<close> returns values.
  K and D are the same float, but J is \<open>3 * k - 2 * d\<close> computed in binary64: with
  nine highs of 1000, nine lows of 0 and a last close of 1 the RSV is the float 0.1, the
  product \<open>3 * k\<close> rounds up, and J is 0.10000000000000003, two units in the last
  place above K.
\<close>

theorem kdj_j_differs_from_k:
  "calculate_kdj (replicate 9 1000) (replicate 9 0) (replicate 8 500 @ [1]) 9 =
     Inr (Some (7205759403792794 / 2 ^ 56, 7205759403792794 / 2 ^ 56,
                7205759403792796 / 2 ^ 56)) \<and>
   (7205759403792794 :: real) / 2 ^ 56 \<noteq> 7205759403792796 / 2 ^ 56"
  using kdj_tenth by simp

lemma range_series_lists:
  "extract_closes parse range_series = replicate 8 500 @ [1]"
  "extract_highs parse range_series = replicate 9 1000"
  "extract_lows parse range_series = replicate 9 0"
  by (simp_all add: range_series_def extract_closes_def extract_highs_def extract_lows_def
      hlc_point_def dict_get_def safe_float_def numeral_eq_Suc)

text \<open>
  Claim C10 as amended, for a window whose highest high and lowest low differ by less
  than \<open>float_limit\<close>. Whenever \<open>calculate_kdj\<close> returns values, K and D are equal;
  J, which is \<open>3 * K - 2 * D\<close> as binary64 computes it, need not be equal to them. When
  the last close lies between the lowest low and the highest high of the window, K and J
  both lie in [0, 100] and J is within \<open>2 ^ -44\<close> of K. For a record returned by
  \<open>calculate_all_indicators\<close> on such an input the score branches \<open>kdj_j > 100\<close>
  and \<open>kdj_j < 0\<close> are therefore not taken, and the KDJ part of the score is decided
  by the thresholds 80 and 20 alone. The proviso on the difference is where the model
  stops: at or above \<open>float_limit\<close> the difference is \<open>inf\<close> in Python, and K is 0
  or NaN.
\<close>

theorem kdj_simplified:
  "(\<forall>k d j. calculate_kdj highs lows closes period = Inr (Some (k, d, j)) \<and>
       Max (set (py_suffix period highs)) - Min (set (py_suffix period lows)) < float_limit
       \<longrightarrow>
      k = d \<and>
      (Min (set (py_suffix period lows)) \<le> last closes \<and>
       last closes \<le> Max (set (py_suffix period highs))
       \<longrightarrow> 0 \<le> k \<and> k \<le> 100 \<and> 0 \<le> j \<and> j \<le> 100 \<and> \<bar>j - k\<bar> \<le> 1 / 2 ^ 44)) \<and>
   (\<forall>r. calculate_all_indicators parse history_data = Inr r \<and>
        Min (set (py_suffix 9 (extract_lows parse history_data)))
          \<le> last (extract_closes parse history_data) \<and>
        last (extract_closes parse history_data)
          \<le> Max (set (py_suffix 9 (extract_highs parse history_data))) \<and>
        Max (set (py_suffix 9 (extract_highs parse history_data)))
          - Min (set (py_suffix 9 (extract_lows parse history_data))) < float_limit \<longrightarrow>
      kdj_k r = kdj_d r \<and>
      (\<forall>j. kdj_j r = Some j \<longrightarrow> \<not> j > 100 \<and> \<not> j < 0) \<and>
      kdj_score r =
        (case kdj_j r of None \<Rightarrow> 0
         | Some j \<Rightarrow> if j > 80 then - 10 else if j < 20 then 10 else 0))"
proof (intro conjI allI impI)
  fix k d j
  assume "calculate_kdj highs lows closes period = Inr (Some (k, d, j)) \<and>
       Max (set (py_suffix period highs)) - Min (set (py_suffix period lows)) < float_limit"
  then show "k = d" using kdj_value by blast
next
  fix k d j
  assume "calculate_kdj highs lows closes period = Inr (Some (k, d, j)) \<and>
       Max (set (py_suffix period highs)) - Min (set (py_suffix period lows)) < float_limit"
    "Min (set (py_suffix period lows)) \<le> last closes \<and>
       last closes \<le> Max (set (py_suffix period highs))"
  then have "0 \<le> k \<and> k \<le> 100 \<and> 0 \<le> j \<and> j \<le> 100 \<and> \<bar>j - k\<bar> \<le> 1 / 2 ^ 44"
    using kdj_range by blast
  then show "0 \<le> k" "k \<le> 100" "0 \<le> j" "j \<le> 100" "\<bar>j - k\<bar> \<le> 1 / 2 ^ 44" by blast+
next
  fix r
  assume a: "calculate_all_indicators parse history_data = Inr r \<and>
        Min (set (py_suffix 9 (extract_lows parse history_data)))
          \<le> last (extract_closes parse history_data) \<and>
        last (extract_closes parse history_data)
          \<le> Max (set (py_suffix 9 (extract_highs parse history_data))) \<and>
        Max (set (py_suffix 9 (extract_highs parse history_data)))
          - Min (set (py_suffix 9 (extract_lows parse history_data))) < float_limit"
  have "kdj_k r = kdj_d r \<and> (\<forall>j. kdj_j r = Some j \<longrightarrow> 0 \<le> j \<and> j \<le> 100)"
  proof (cases "5 \<le> length history_data")
    case False
    then have "r = default_indicators"
      using a by (simp add: calculate_all_indicators_def)
    then show ?thesis by (simp add: default_indicators_def)
  next
    case True
    from a have ret: "calculate_all_indicators parse history_data = Inr r" by blast
    from all_indicators_result [OF True ret]
    obtain kdj where kdj:
      "calculate_kdj (extract_highs parse history_data) (extract_lows parse history_data)
         (extract_closes parse history_data) 9 = Inr kdj"
      "kdj_k r = map_option fst kdj" "kdj_d r = map_option (fst \<circ> snd) kdj"
      "kdj_j r = map_option (snd \<circ> snd) kdj"
      by (elim exE conjE)
    show ?thesis
    proof (cases kdj)
      case None
      then show ?thesis using kdj by simp
    next
      case (Some t)
      obtain k d j where t: "t = (k, d, j)" by (cases t) auto
      have "k = d" using kdj(1) Some t kdj_value by blast
      moreover have "0 \<le> j \<and> j \<le> 100" using kdj(1) Some t a kdj_range by blast
      ultimately show ?thesis using kdj Some t by simp
    qed
  qed
  then show "kdj_k r = kdj_d r"
    "\<And>j. kdj_j r = Some j \<Longrightarrow> \<not> j > 100" "\<And>j. kdj_j r = Some j \<Longrightarrow> \<not> j < 0"
    "kdj_score r =
        (case kdj_j r of None \<Rightarrow> 0
         | Some j \<Rightarrow> if j > 80 then - 10 else if j < 20 then 10 else 0)"
    by (auto simp add: kdj_score_def split: option.splits)
qed

text \<open>
  The amended claim at nine records with highs of 1000, lows of 0 and a last close of 1:
  K and D are the float 0.1, J is two units in the last place above, and the score
  takes the branch \<open>kdj_j < 20\<close>.
\<close>

theorem kdj_simplified_witness:
  "calculate_kdj (replicate 9 1000) (replicate 9 0) (replicate 8 500 @ [1]) 9 =
     Inr (Some (7205759403792794 / 2 ^ 56, 7205759403792794 / 2 ^ 56,
                7205759403792796 / 2 ^ 56)) \<and>
   Min (set (py_suffix 9 (replicate 9 (0 :: real)))) \<le> last (replicate 8 500 @ [1]) \<and>
   last (replicate 8 500 @ [1 :: real]) \<le> Max (set (py_suffix 9 (replicate 9 1000))) \<and>
   Max (set (py_suffix 9 (replicate 9 1000))) - Min (set (py_suffix 9 (replicate 9 0)))
     < float_limit \<and>
   (0 :: real) \<le> 7205759403792796 / 2 ^ 56 \<and> (7205759403792796 :: real) / 2 ^ 56 \<le> 100 \<and>
   Min (set (py_suffix 9 (extract_lows Map.empty range_series)))
     \<le> last (extract_closes Map.empty range_series) \<and>
   last (extract_closes Map.empty range_series)
     \<le> Max (set (py_suffix 9 (extract_highs Map.empty range_series))) \<and>
   Max (set (py_suffix 9 (extract_highs Map.empty range_series)))
     - Min (set (py_suffix 9 (extract_lows Map.empty range_series))) < float_limit \<and>
   map_sum id kdj_k (calculate_all_indicators Map.empty range_series)
     = Inr (Some (7205759403792794 / 2 ^ 56)) \<and>
   map_sum id kdj_j (calculate_all_indicators Map.empty range_series)
     = Inr (Some (7205759403792796 / 2 ^ 56)) \<and>
   map_sum id kdj_score (calculate_all_indicators Map.empty range_series) = Inr 10"
proof -
  note t = kdj_simplified [of "replicate 9 1000" "replicate 9 0" "replicate 8 500 @ [1]" 9
      Map.empty range_series]
  have w1: "Min (set (py_suffix 9 (replicate 9 (0 :: real)))) \<le> last (replicate 8 500 @ [1])"
    "last (replicate 8 500 @ [1 :: real]) \<le> Max (set (py_suffix 9 (replicate 9 1000)))"
    "Max (set (py_suffix 9 (replicate 9 1000))) - Min (set (py_suffix 9 (replicate 9 0)))
     < float_limit"
    by (simp_all add: py_suffix_def float_limit_def)
  have a: "(0 :: real) \<le> 7205759403792796 / 2 ^ 56 \<and> (7205759403792796 :: real) / 2 ^ 56 \<le> 100"
    using t kdj_tenth w1 by blast
  have w2: "Min (set (py_suffix 9 (extract_lows Map.empty range_series)))
     \<le> last (extract_closes Map.empty range_series)"
    "last (extract_closes Map.empty range_series)
     \<le> Max (set (py_suffix 9 (extract_highs Map.empty range_series)))"
    "Max (set (py_suffix 9 (extract_highs Map.empty range_series)))
     - Min (set (py_suffix 9 (extract_lows Map.empty range_series))) < float_limit"
    unfolding range_series_lists using w1 by simp_all
  have len: "5 \<le> length range_series" by (simp add: range_series_def)
  have boll: "calculate_bollinger (extract_closes Map.empty range_series) 20 2
      = Inr (None, None, None)"
    unfolding range_series_lists by (simp add: calculate_bollinger_def)
  have kd: "calculate_kdj (extract_highs Map.empty range_series)
      (extract_lows Map.empty range_series) (extract_closes Map.empty range_series) 9
      = Inr (Some (7205759403792794 / 2 ^ 56, 7205759403792794 / 2 ^ 56,
                   7205759403792796 / 2 ^ 56))"
    unfolding range_series_lists by (rule kdj_tenth)
  obtain r where r: "calculate_all_indicators Map.empty range_series = Inr r"
    using all_indicators_returns [OF len boll kd] by blast
  from all_indicators_result [OF len r] kd
  have f: "kdj_k r = Some (7205759403792794 / 2 ^ 56)"
    "kdj_j r = Some (7205759403792796 / 2 ^ 56)"
    by auto
  have "kdj_score r =
        (case kdj_j r of None \<Rightarrow> 0
         | Some j \<Rightarrow> if j > 80 then - 10 else if j < 20 then 10 else 0)"
    using t r w2 by blast
  then have "kdj_score r = 10" using f(2) by simp
  then show ?thesis using kdj_tenth w1 a w2 r f by simp
qed

subsection \<open>Performance metrics: absent or complete\<close>

lemma emap_numeric_closes:
  "numeric_closes h \<Longrightarrow>
   emap (\<lambda>d. dict_item d ''close'') h = Inr (map PNum (close_values h))"
proof (induction h)
  case Nil
  then show ?case by (simp add: close_values_def)
next
  case (Cons d h)
  then have "numeric_closes h" by (simp add: numeric_closes_def)
  moreover obtain c where "d ''close'' = Some (PNum c)"
    using Cons.prems by (auto simp add: numeric_closes_def split: option.splits pyval.splits)
  ultimately show ?case
    using Cons.IH by (simp add: close_values_def dict_item_def ebind_def)
qed

lemma py_floats_numeric: "py_floats (map PNum cs) = Inr cs"
  by (induction cs) (simp_all add: py_floats_def py_num_def ebind_def)

lemma daily_returns_numeric:
  "\<exists>rs. daily_returns (map PNum cs) = Inr rs \<and> (rs = [] \<longleftrightarrow> (\<forall>c\<in>set (butlast cs). c = 0))"
proof (induction cs rule: induct_list012)
  case 1
  then show ?case by simp
next
  case (2 x)
  then show ?case by simp
next
  case (3 x y zs)
  then obtain rs where rs: "daily_returns (map PNum (y # zs)) = Inr rs"
    "rs = [] \<longleftrightarrow> (\<forall>c\<in>set (butlast (y # zs)). c = 0)" by blast
  show ?case
  proof (cases "x = 0")
    case True
    then show ?thesis using rs by (simp add: py_ne0_def)
  next
    case False
    then show ?thesis using rs
      by (simp add: py_ne0_def py_num_def py_div_def ebind_def)
  qed
qed

lemma numeric_close_points: "numeric_closes (map close_point cs)"
  by (induction cs) (simp_all add: numeric_closes_def close_point_def)

lemma close_values_points: "close_values (map close_point cs) = cs"
  by (induction cs) (simp_all add: close_values_def close_point_def)

lemma closes_of_points:
  "emap (\<lambda>d. dict_item d ''close'') (map close_point cs) = Inr (map PNum cs)"
  using emap_numeric_closes [OF numeric_close_points, of cs] by (simp add: close_values_points)

text \<open>
  On closes that are numbers, the statistics of the model raise exactly when one of the
  two calls of \<open>_std\<close> does, and otherwise give a record.
\<close>

lemma performance_metrics_numeric:
  assumes "cs \<noteq> []"
  shows "(performance_metrics (map PNum cs) rets days = Inl OverflowError \<longleftrightarrow>
            std rets = Inl OverflowError \<or> std (filter (\<lambda>r. r < 0) rets) = Inl OverflowError) \<and>
         ((\<exists>m. performance_metrics (map PNum cs) rets days = Inr m) \<or>
          performance_metrics (map PNum cs) rets days = Inl OverflowError)"
proof -
  define T where "T = (if hd cs \<noteq> 0 then (last cs - hd cs) / hd cs * 100 else 0)"
  have tot: "(if py_truthy (hd (map PNum cs))
            then ebind (py_num (last (map PNum cs))) (\<lambda>cl.
                 ebind (py_num (hd (map PNum cs))) (\<lambda>c0.
                 ebind (py_div (cl - c0) c0) (\<lambda>q. Inr (q * 100))))
            else Inr 0) = Inr T"
    using assms
    by (simp add: T_def py_truthy_def py_num_def py_div_def ebind_def hd_map last_map)
  have empty: "std [] = Inr 0" by (simp add: std_def)
  show ?thesis
  proof (cases "std rets")
    case (Inl e)
    then have e: "e = OverflowError" by (rule std_error)
    have "performance_metrics (map PNum cs) rets days = Inl e"
      apply (subst performance_metrics_def)
      apply (subst tot)
      apply (simp only: Inl ebind_def sum.case Let_def)
      done
    then show ?thesis using Inl e by simp
  next
    case (Inr sd)
    note sd = Inr
    show ?thesis
    proof (cases "filter (\<lambda>r. r < 0) rets = []")
      case True
      have "\<exists>m. performance_metrics (map PNum cs) rets days = Inr m"
        apply (subst performance_metrics_def)
        apply (subst tot)
        apply (simp only: sd py_floats_numeric True ebind_def sum.case Let_def
            case_prod_beta not_True_eq_False simp_thms if_False)
        apply blast
        done
      then show ?thesis using sd True empty by auto
    next
      case False
      show ?thesis
      proof (cases "std (filter (\<lambda>r. r < 0) rets)")
        case (Inl e)
        then have e: "e = OverflowError" by (rule std_error)
        have "performance_metrics (map PNum cs) rets days = Inl e"
          apply (subst performance_metrics_def)
          apply (subst tot)
          apply (simp only: sd py_floats_numeric False Inl ebind_def sum.case Let_def
              case_prod_beta simp_thms if_True)
          done
        then show ?thesis using Inl e by simp
      next
        case (Inr ds)
        have "\<exists>m. performance_metrics (map PNum cs) rets days = Inr m"
          apply (subst performance_metrics_def)
          apply (subst tot)
          apply (simp only: sd py_floats_numeric False Inr ebind_def sum.case Let_def
              case_prod_beta simp_thms if_True)
          apply blast
          done
        then show ?thesis using sd Inr by auto
      qed
    qed
  qed
qed

lemma overflow_returns:
  "daily_returns (map PNum overflow_closes) = Inr [10 ^ 202 - 100, 0, 0, 0]"
  by (simp add: overflow_closes_def py_ne0_def py_num_def py_div_def ebind_def)

lemma overflow_std: "std [10 ^ 202 - 100, 0, 0, 0] = Inl OverflowError"
  by (simp add: std_def py_square_def float_limit_def ebind_def)

lemma overflow_performance: "calculate_performance overflow_series = Inl OverflowError"
proof -
  have g: "(overflow_series = [] \<or> length overflow_series < 5) = False"
    by (simp add: overflow_series_def overflow_closes_def)
  have c: "emap (\<lambda>d. dict_item d ''close'') overflow_series = Inr (map PNum overflow_closes)"
    unfolding overflow_series_def by (rule closes_of_points)
  have ne: "overflow_closes \<noteq> []" by (simp add: overflow_closes_def)
  have m: "performance_metrics (map PNum overflow_closes) [10 ^ 202 - 100, 0, 0, 0]
             (length overflow_series) = Inl OverflowError"
    using performance_metrics_numeric [OF ne, of "[10 ^ 202 - 100, 0, 0, 0]"] overflow_std
    by blast
  have r: "([10 ^ 202 - 100, 0, 0, 0 :: real] = []) = False" by simp
  show ?thesis
    unfolding calculate_performance_def
    by (simp only: g if_False c overflow_returns r m ebind_def sum.case)
qed

text \<open>
  Claim C4 says that \<open>calculate_performance\<close> returns \<open>None\<close> below five points or
  on an empty list of daily returns, and a full record in every other case. On the five
  closes \<open>1e-100, 1e100, 1e100, 1e100, 1e100\<close> the list of daily returns is not empty,
  and the call raises OverflowError in \<open>_std\<close> instead of returning a record.
\<close>

theorem performance_overflow_raises:
  "length overflow_series = 5 \<and>
   daily_returns (map PNum overflow_closes) = Inr [10 ^ 202 - 100, 0, 0, 0] \<and>
   calculate_performance overflow_series = Inl OverflowError"
  using overflow_returns overflow_performance
  by (simp add: overflow_series_def overflow_closes_def)

text \<open>
  Claim C4 as amended: on a series whose records all carry a number under \<open>close\<close>,
  \<open>calculate_performance\<close> returns \<open>None\<close> exactly when the series has fewer than
  five records or the list of daily returns is empty, which happens exactly when every
  close but the last is zero. In every other case it returns a record, and a
  \<open>PerformanceMetrics\<close> record has all sixteen fields, or it raises OverflowError;
  and it returns the record whenever neither call of \<open>_std\<close>, on the daily returns
  and on the negative ones, meets a squared deviation out of the float range.
\<close>

theorem calculate_performance_absent_or_full:
  assumes "numeric_closes history_data"
  shows "(calculate_performance history_data = Inr None \<longleftrightarrow>
           length history_data < 5 \<or> (\<forall>c\<in>set (butlast (close_values history_data)). c = 0)) \<and>
         ((\<exists>m. calculate_performance history_data = Inr (Some m)) \<or>
          calculate_performance history_data = Inr None \<or>
          calculate_performance history_data = Inl OverflowError) \<and>
         (\<forall>rets. 5 \<le> length history_data \<and>
                 daily_returns (map PNum (close_values history_data)) = Inr rets \<and>
                 rets \<noteq> [] \<and>
                 (\<exists>v. std rets = Inr v) \<and> (\<exists>v. std (filter (\<lambda>r. r < 0) rets) = Inr v) \<longrightarrow>
            (\<exists>m. calculate_performance history_data = Inr (Some m)))"
proof (cases "length history_data < 5")
  case True
  then show ?thesis by (simp add: calculate_performance_def)
next
  case False
  obtain rs where rs: "daily_returns (map PNum (close_values history_data)) = Inr rs"
    "rs = [] \<longleftrightarrow> (\<forall>c\<in>set (butlast (close_values history_data)). c = 0)"
    using daily_returns_numeric by blast
  have ne: "history_data \<noteq> []" using False by auto
  then have cne: "close_values history_data \<noteq> []" by (simp add: close_values_def)
  define pm where
    "pm = performance_metrics (map PNum (close_values history_data)) rs (length history_data)"
  have eq: "calculate_performance history_data =
          (if rs = [] then Inr None else ebind pm (\<lambda>m. Inr (Some m)))"
    using False ne
    by (simp add: calculate_performance_def emap_numeric_closes [OF assms] rs(1)
        ebind_def pm_def)
  note pmn = performance_metrics_numeric [OF cne, of rs "length history_data",
      folded pm_def]
  show ?thesis
  proof (cases "rs = []")
    case True
    then show ?thesis using eq False rs by auto
  next
    case nonempty: False
    have a: "calculate_performance history_data \<noteq> Inr None"
      using eq nonempty by (auto simp add: ebind_def split: sum.splits)
    have b: "(\<exists>m. calculate_performance history_data = Inr (Some m)) \<or>
          calculate_performance history_data = Inl OverflowError"
      using eq nonempty pmn by (auto simp add: ebind_def)
    have "calculate_performance history_data = Inl OverflowError \<longleftrightarrow>
               std rs = Inl OverflowError \<or>
               std (filter (\<lambda>r. r < 0) rs) = Inl OverflowError"
      using eq nonempty pmn by (auto simp add: ebind_def split: sum.splits)
    then have c: "(\<exists>v. std rs = Inr v) \<and> (\<exists>v. std (filter (\<lambda>r. r < 0) rs) = Inr v) \<longrightarrow>
        (\<exists>m. calculate_performance history_data = Inr (Some m))"
      using b by auto
    show ?thesis using a b c False rs nonempty by auto
  qed
qed

lemma small_std: "\<exists>v. std [100, 50, 100 / 3, 25] = Inr v"
  by (rule std_returns) (simp add: float_limit_def power2_eq_square)

theorem calculate_performance_absent_or_full_witness:
  "numeric_closes (map close_point [1, 2, 3]) \<and>
   calculate_performance (map close_point [1, 2, 3]) = Inr None \<and>
   numeric_closes (map close_point [0, 0, 0, 0, 7]) \<and>
   calculate_performance (map close_point [0, 0, 0, 0, 7]) = Inr None \<and>
   numeric_closes (map close_point [1, 2, 3, 4, 5]) \<and>
   daily_returns (map PNum [1, 2, 3, 4, 5]) = Inr [100, 50, 100 / 3, 25] \<and>
   (\<exists>v. std [100, 50, 100 / 3, 25] = Inr v) \<and>
   (\<exists>v. std (filter (\<lambda>r. r < 0) [100, 50, 100 / 3, 25]) = Inr v) \<and>
   (\<exists>m. calculate_performance (map close_point [1, 2, 3, 4, 5]) = Inr (Some m))"
proof -
  have a: "calculate_performance (map close_point [1, 2, 3]) = Inr None"
    using calculate_performance_absent_or_full [OF numeric_close_points, of "[1, 2, 3]"]
    by simp
  have b: "calculate_performance (map close_point [0, 0, 0, 0, 7]) = Inr None"
    using calculate_performance_absent_or_full [OF numeric_close_points, of "[0, 0, 0, 0, 7]",
        unfolded close_values_points]
    by simp
  note t = calculate_performance_absent_or_full [OF numeric_close_points,
      of "[1, 2, 3, 4, 5]", unfolded close_values_points]
  have r: "daily_returns (map PNum [1, 2, 3, 4, 5]) = Inr [100, 50, 100 / 3, 25]"
    by (simp add: py_ne0_def py_num_def py_div_def ebind_def)
  have e: "\<exists>v. std (filter (\<lambda>r. r < 0) [100, 50, 100 / 3, 25 :: real]) = Inr v"
    by (simp add: std_def)
  have c: "\<exists>m. calculate_performance (map close_point [1, 2, 3, 4, 5]) = Inr (Some m)"
    using t r small_std e by simp
  show ?thesis using a b c r small_std e numeric_close_points by blast
qed

subsection \<open>A close that is not a number\<close>

lemma bad_series_closes:
  "emap (\<lambda>d. dict_item d ''close'') bad_series = Inr (PNone # replicate 29 (PNum 100))"
proof -
  have "emap (\<lambda>d. dict_item d ''close'') (replicate 29 flat_point) = Inr (replicate 29 (PNum 100))"
    by (rule emap_replicate) (simp add: dict_item_def flat_point_def)
  then show ?thesis
    by (simp add: bad_series_def none_point_def dict_item_def ebind_def)
qed

lemma daily_returns_none_first: "daily_returns (PNone # PNum c # rest) = Inl TypeError"
  by (simp add: py_ne0_def py_num_def ebind_def)

lemma replicate_29: "replicate 29 x = x # replicate 28 x"
  by (simp add: numeral_eq_Suc)

lemma performance_bad_series: "calculate_performance bad_series = Inl TypeError"
proof -
  have "length bad_series = 30" by (simp add: bad_series_def)
  then have g: "(bad_series = [] \<or> length bad_series < 5) = False" by auto
  show ?thesis
    unfolding calculate_performance_def
    by (simp only: g if_False bad_series_closes replicate_29 daily_returns_none_first
        ebind_def sum.case)
qed

lemma py_sum_acc:
  "efold (\<lambda>acc v. ebind (py_num v) (\<lambda>x. Inr (acc + x))) a (replicate n (PNum c))
     = Inr (a + real n * c)"
  by (induction n arbitrary: a) (simp_all add: py_num_def ebind_def algebra_simps)

lemma py_sum_replicate: "py_sum (replicate n (PNum c)) = Inr (real n * c)"
  using py_sum_acc [of 0 n c] by (simp add: py_sum_def)

lemma py_sum_none_first: "py_sum (PNone # vs) = Inl TypeError"
  by (simp add: py_sum_def py_num_def ebind_def)

lemma ma_cross_bad_step:
  "ma_cross_step (PNone # replicate 29 (PNum 100)) dates 5 20 s 20 = Inl TypeError"
proof -
  let ?c = "PNone # replicate 29 (PNum 100)"
  have s1: "py_slice 16 21 ?c = replicate 5 (PNum 100)"
    "py_slice 1 21 ?c = replicate 20 (PNum 100)"
    "py_slice 15 20 ?c = replicate 5 (PNum 100)"
    "py_slice 0 20 ?c = PNone # replicate 19 (PNum 100)"
    by (simp_all add: py_slice_def)
  have w: "window_mean ?c (int 20 - int 5 + 1) (int 20 + 1) 5 = Inr 100"
    "window_mean ?c (int 20 - int 20 + 1) (int 20 + 1) 20 = Inr 100"
    "window_mean ?c (int 20 - int 5) (int 20) 5 = Inr 100"
    "window_mean ?c (int 20 - int 20) (int 20) 20 = Inl TypeError"
    by (simp_all add: window_mean_def s1 py_sum_replicate py_sum_none_first py_div_def ebind_def)
  show ?thesis
    unfolding ma_cross_step_def by (simp only: w ebind_def sum.case)
qed

lemma ma_cross_bad_series: "backtest_ma_cross bad_series 5 20 = Inl TypeError"
proof -
  have "length bad_series = 30" by (simp add: bad_series_def)
  then have g: "(bad_series = [] \<or> length bad_series < 20 + 10) = False" by auto
  have u: "[20..<length (PNone # replicate 29 (PNum 100))] = 20 # [21..<30]"
    by (simp add: upt_conv_Cons)
  have sim: "ma_cross_sim (PNone # replicate 29 (PNum 100)) (get_dates bad_series) 5 20
               = Inl TypeError"
    unfolding ma_cross_sim_def u by (simp add: ma_cross_bad_step ebind_def)
  show ?thesis
    unfolding backtest_ma_cross_def
    by (simp only: g if_False bad_series_closes sim ebind_def sum.case)
qed

lemma rsi_bad_step:
  "rsi_step (PNone # replicate 29 (PNum 100)) dates 14 30 70 s 15 = Inl TypeError"
  by (simp add: rsi_step_def py_floats_def py_num_def ebind_def)

lemma rsi_bad_series: "backtest_rsi bad_series 14 30 70 = Inl TypeError"
proof -
  have "length bad_series = 30" by (simp add: bad_series_def)
  then have g: "(bad_series = [] \<or> length bad_series < 14 + 10) = False" by auto
  have u: "[14 + 1..<length (PNone # replicate 29 (PNum 100))] = 15 # [16..<30]"
    by (simp add: upt_conv_Cons)
  have sim: "rsi_sim (PNone # replicate 29 (PNum 100)) (get_dates bad_series) 14 30 70
               = Inl TypeError"
    unfolding rsi_sim_def u by (simp add: rsi_bad_step ebind_def)
  show ?thesis
    unfolding backtest_rsi_def
    by (simp only: g if_False bad_series_closes sim ebind_def sum.case)
qed

lemma bad_series_lists:
  "extract_closes parse bad_series = 0 # replicate 29 100"
  "extract_highs parse bad_series = 0 # replicate 29 100"
  "extract_lows parse bad_series = 0 # replicate 29 100"
proof -
  show c: "extract_closes parse bad_series = 0 # replicate 29 100"
    by (simp add: extract_closes_def bad_series_def none_point_def flat_point_def dict_get_def
        safe_float_def)
  show "extract_highs parse bad_series = 0 # replicate 29 100"
    unfolding extract_highs_def c
    by (simp add: bad_series_def none_point_def flat_point_def dict_get_def safe_float_def
        zip_replicate)
  show "extract_lows parse bad_series = 0 # replicate 29 100"
    unfolding extract_lows_def c
    by (simp add: bad_series_def none_point_def flat_point_def dict_get_def safe_float_def
        zip_replicate)
qed

lemma bad_series_indicators: "\<exists>r. calculate_all_indicators parse bad_series = Inr r"
proof -
  have len: "5 \<le> length bad_series" by (simp add: bad_series_def)
  have s20: "py_suffix 20 (0 # replicate 29 (100 :: real)) = replicate 20 100"
    by (simp add: py_suffix_def)
  have s9: "py_suffix 9 (0 # replicate 29 (100 :: real)) = replicate 9 100"
    by (simp add: py_suffix_def)
  have boll: "calculate_bollinger (extract_closes parse bad_series) 20 2
      = Inr (Some 100, Some 100, Some 100)"
    unfolding bad_series_lists
    by (simp add: calculate_bollinger_def sma_def s20 std_replicate sum_list_replicate
        py_div_def ebind_def)
  have kdj: "calculate_kdj (extract_highs parse bad_series) (extract_lows parse bad_series)
      (extract_closes parse bad_series) 9 = Inr (Some (50, 50, 50))"
    unfolding bad_series_lists
    by (simp add: calculate_kdj_def s9 py_max_def py_min_def ebind_def j_line_50)
  show ?thesis using all_indicators_returns [OF len boll kdj] .
qed

lemma bad_series_close_zero: "hd (extract_closes parse bad_series) = 0"
  by (simp add: extract_closes_def bad_series_def none_point_def dict_get_def safe_float_def)

lemma missing_close_raises: "calculate_performance (replicate 5 Map.empty) = Inl KeyError"
  by (simp add: calculate_performance_def numeral_eq_Suc dict_item_def ebind_def)

text \<open>
  Claim C3 says that a close, high or low that is missing or not a number is read as
  zero by all three public operations and that none of them raises. Only
  \<open>calculate_all_indicators\<close> goes through \<open>safe_float\<close>: it returns a record on
  \<open>bad_series\<close>, and it reads the \<open>None\<close> close of its first record as 0.
  \<open>calculate_performance\<close> and both backtests read \<open>d["close"]\<close> as it is and
  raise TypeError on the same series.
\<close>

theorem malformed_close_raises:
  "calculate_performance bad_series = Inl TypeError \<and>
   backtest_ma_cross bad_series 5 20 = Inl TypeError \<and>
   backtest_rsi bad_series 14 30 70 = Inl TypeError \<and>
   (\<exists>r. calculate_all_indicators Map.empty bad_series = Inr r) \<and>
   hd (extract_closes Map.empty bad_series) = 0"
  using performance_bad_series ma_cross_bad_series rsi_bad_series
    bad_series_indicators [of Map.empty] bad_series_close_zero [of Map.empty]
  by simp

subsection \<open>Backtests: the simulation state\<close>

lemma efold_invariant:
  assumes "P s0" and "\<And>s i s'. P s \<Longrightarrow> step s i = Inr s' \<Longrightarrow> P s'"
    and "efold step s0 idx = Inr s"
  shows "P s"
  using assms(1,3)
proof (induction idx arbitrary: s0)
  case Nil
  then show ?case by simp
next
  case (Cons i rest)
  then obtain s1 where s1: "step s0 i = Inr s1" "efold step s1 rest = Inr s"
    by (auto simp add: ebind_def split: sum.splits)
  have "P s1" using assms(2) Cons.prems(1) s1(1) by blast
  then show ?case using Cons.IH s1(2) by blast
qed

lemma ma_cross_step_inv:
  "sim_inv s \<Longrightarrow> ma_cross_step closes dates fast slow s i = Inr s' \<Longrightarrow> sim_inv s'"
  by (auto simp add: ma_cross_step_def sim_inv_def ebind_def Let_def split: sum.splits if_splits)

lemma rsi_step_inv:
  "sim_inv s \<Longrightarrow> rsi_step closes dates period oversold overbought s i = Inr s' \<Longrightarrow> sim_inv s'"
  by (auto simp add: rsi_step_def sim_inv_def ebind_def Let_def
      split: sum.splits if_splits option.splits)

lemma sim_init_inv: "sim_inv sim_init"
  by (simp add: sim_inv_def sim_init_def)

lemma ma_cross_sim_inv: "ma_cross_sim closes dates fast slow = Inr s \<Longrightarrow> sim_inv s"
  unfolding ma_cross_sim_def
  by (rule efold_invariant [where P = sim_inv, OF sim_init_inv ma_cross_step_inv])

lemma rsi_sim_inv: "rsi_sim closes dates period oversold overbought = Inr s \<Longrightarrow> sim_inv s"
  unfolding rsi_sim_def
  by (rule efold_invariant [where P = sim_inv, OF sim_init_inv rsi_step_inv])

lemma efold_total:
  assumes "P s0"
    and "\<And>s i. i \<in> set idx \<Longrightarrow> P s \<Longrightarrow> \<exists>s'. step s i = Inr s' \<and> P s'"
  shows "\<exists>s. efold step s0 idx = Inr s \<and> P s"
  using assms
proof (induction idx arbitrary: s0)
  case Nil
  then show ?case by simp
next
  case (Cons i rest)
  obtain s1 where s1: "step s0 i = Inr s1" "P s1"
    using Cons.prems(2) [of i s0] Cons.prems(1) by auto
  have "\<exists>s. efold step s1 rest = Inr s \<and> P s"
    using Cons.IH [OF s1(2)] Cons.prems(2) by auto
  then show ?case using s1(1) by (simp add: ebind_def)
qed

lemma summary_signals:
  "sim_inv s \<Longrightarrow> backtest_summary name days s = Inr r \<Longrightarrow>
   signals r = drop (length (signal_log s) - 5) (signal_log s) \<and> length (signals r) \<le> 5"
  by (auto simp add: backtest_summary_def sim_inv_def Let_def py_suffix_def ebind_def
      split: if_splits sum.splits)

lemma summary_zero_trades:
  "trades s = [] \<Longrightarrow>
   backtest_summary name days s =
     Inr \<lparr>strategy_name = name, total_return = 0, annual_return = 0, max_drawdown = 0,
          sharpe_ratio = 0, win_rate = 0, profit_loss_ratio = 0, trade_count = 0,
          signals = signal_log s\<rparr>"
  by (simp add: backtest_summary_def)

lemma summary_returns: "std (trades s) = Inr v \<Longrightarrow> \<exists>r. backtest_summary name days s = Inr r"
  by (simp add: backtest_summary_def Let_def ebind_def)


subsection \<open>Backtests on example series\<close>

lemma py_sum_numeric_acc:
  "efold (\<lambda>acc v. ebind (py_num v) (\<lambda>x. Inr (acc + x))) a (map PNum cs) = Inr (a + sum_list cs)"
  by (induction cs arbitrary: a) (simp_all add: py_num_def ebind_def algebra_simps)

lemma py_sum_numeric: "py_sum (map PNum cs) = Inr (sum_list cs)"
  using py_sum_numeric_acc [of 0 cs] by (simp add: py_sum_def)

lemma py_slice_numeric: "py_slice a b (map PNum cs) = map PNum (py_slice a b cs)"
  by (simp add: py_slice_def Let_def take_map drop_map)

lemma window_mean_numeric:
  "window_mean (map PNum cs) a b p = py_div (sum_list (py_slice a b cs)) (real p)"
  by (simp add: window_mean_def py_slice_numeric py_sum_numeric ebind_def)

lemma dates_of_points: "get_dates (map close_point cs) = replicate (length cs) (PStr [])"
  by (induction cs) (simp_all add: get_dates_def close_point_def dict_get_def)

lemma upt_2_12: "[2..<12] = [2, 3, 4, 5, 6, 7, 8, 9, 10, 11 :: nat]"
  by code_simp

lemma py_round_minus_50: "py_round (- 50) 2 = - 50"
  by (simp add: py_round_def round_half_even_def)

lemma zigzag_sim:
  "ma_cross_sim (map PNum zigzag_closes) (replicate 12 (PStr [])) 1 2 =
     Inr \<lparr>position = 1, entry_price = 32,
        signal_log =
          [\<lparr>sig_date = PStr [], sig_type = BuySignal, sig_price = 2,
              sig_rsi = None, sig_profit = None, sig_reason = MA_cross_up 1 2\<rparr>,
           \<lparr>sig_date = PStr [], sig_type = SellSignal, sig_price = 1,
              sig_rsi = None, sig_profit = Some (- 50), sig_reason = MA_cross_down 1 2\<rparr>,
           \<lparr>sig_date = PStr [], sig_type = BuySignal, sig_price = 4,
              sig_rsi = None, sig_profit = None, sig_reason = MA_cross_up 1 2\<rparr>,
           \<lparr>sig_date = PStr [], sig_type = SellSignal, sig_price = 2,
              sig_rsi = None, sig_profit = Some (- 50), sig_reason = MA_cross_down 1 2\<rparr>,
           \<lparr>sig_date = PStr [], sig_type = BuySignal, sig_price = 8,
              sig_rsi = None, sig_profit = None, sig_reason = MA_cross_up 1 2\<rparr>,
           \<lparr>sig_date = PStr [], sig_type = SellSignal, sig_price = 4,
              sig_rsi = None, sig_profit = Some (- 50), sig_reason = MA_cross_down 1 2\<rparr>,
           \<lparr>sig_date = PStr [], sig_type = BuySignal, sig_price = 16,
              sig_rsi = None, sig_profit = None, sig_reason = MA_cross_up 1 2\<rparr>,
           \<lparr>sig_date = PStr [], sig_type = SellSignal, sig_price = 8,
              sig_rsi = None, sig_profit = Some (- 50), sig_reason = MA_cross_down 1 2\<rparr>,
           \<lparr>sig_date = PStr [], sig_type = BuySignal, sig_price = 32,
              sig_rsi = None, sig_profit = None, sig_reason = MA_cross_up 1 2\<rparr>],
        trades = [- 50, - 50, - 50, - 50]\<rparr>"
  unfolding ma_cross_sim_def ma_cross_step_def window_mean_numeric
  by (simp add: zigzag_closes_def upt_2_12 py_slice_def py_div_def ebind_def py_num_def
      sim_init_def py_round_minus_50)

lemma rising_ma_sim:
  "ma_cross_sim (map PNum rising_closes) (replicate 12 (PStr [])) 1 2 =
     Inr \<lparr>position = 1, entry_price = 2,
        signal_log =
          [\<lparr>sig_date = PStr [], sig_type = BuySignal, sig_price = 2,
              sig_rsi = None, sig_profit = None, sig_reason = MA_cross_up 1 2\<rparr>],
        trades = []\<rparr>"
  unfolding ma_cross_sim_def ma_cross_step_def window_mean_numeric
  by (simp add: rising_closes_def upt_2_12 py_slice_def py_div_def ebind_def py_num_def
      sim_init_def)

lemma changes_Cons: "changes (x # y # rest) = (y - x) # changes (y # rest)"
proof -
  have "[1..<Suc (Suc (length rest))] = 1 # [Suc 1..<Suc (Suc (length rest))]"
    by (rule upt_conv_Cons) simp
  moreover have "length (x # y # rest) = Suc (Suc (length rest))"
    "length (y # rest) = Suc (length rest)" by simp_all
  ultimately have "[1..<length (x # y # rest)] = 1 # map Suc [1..<length (y # rest)]"
    by (simp only: map_Suc_upt)
  moreover have "map (\<lambda>i. (x # y # rest) ! i - (x # y # rest) ! (i - 1)) (map Suc [1..<length (y # rest)])
      = map (\<lambda>i. (y # rest) ! i - (y # rest) ! (i - 1)) [1..<length (y # rest)]"
    unfolding map_map by (rule map_cong) (auto simp add: nth_Cons')
  ultimately show ?thesis by (simp add: changes_def)
qed

lemma changes_single: "changes [x] = []"
  by (simp add: changes_def)

lemma py_floats_take: "py_floats (take n (map PNum cs)) = Inr (take n cs)"
  using py_floats_numeric [of "take n cs"] by (simp add: take_map)

lemma py_round_100: "py_round 100 2 = 100"
  by (simp add: py_round_def round_half_even_def)

lemma rising_rsi_sim:
  "rsi_sim (map PNum rising_closes) (replicate 12 (PStr [])) 1 30 70 =
     Inr \<lparr>position = 1, entry_price = 2,
        signal_log =
          [\<lparr>sig_date = PStr [], sig_type = BuySignal, sig_price = 2,
              sig_rsi = Some 100, sig_profit = None, sig_reason = RSI_rebound\<rparr>],
        trades = []\<rparr>"
  unfolding rsi_sim_def rsi_step_def py_floats_take
  by (simp add: rising_closes_def upt_2_12 calculate_rsi_def changes_Cons changes_single
      py_suffix_def py_div_def ebind_def py_num_def sim_init_def py_round_100)


lemma rising_length: "length rising_series = 12" "length rising_closes = 12"
  by (simp_all add: rising_series_def rising_closes_def)

lemma zigzag_length: "length zigzag_series = 12" "length zigzag_closes = 12"
  by (simp_all add: zigzag_series_def zigzag_closes_def)

lemma zigzag_log:
  assumes "Inr s = ma_cross_sim (map PNum zigzag_closes) (replicate 12 (PStr [])) 1 2"
  shows "map sig_type (signal_log s) =
           [BuySignal, SellSignal, BuySignal, SellSignal, BuySignal, SellSignal, BuySignal,
            SellSignal, BuySignal]"
    and "map sig_price (signal_log s) = [2, 1, 4, 2, 8, 4, 16, 8, 32]"
  using assms unfolding zigzag_sim by simp_all

lemma rising_log:
  assumes "Inr s = rsi_sim (map PNum rising_closes) (replicate 12 (PStr [])) 1 30 70"
  shows "map sig_type (signal_log s) = [BuySignal]"
    and "map sig_price (signal_log s) = [2]"
  using assms unfolding rising_rsi_sim by simp_all

lemma last_five_of_map:
  "signals r = drop (length lg - 5) lg \<Longrightarrow>
   map f (signals r) = drop (length (map f lg) - 5) (map f lg)"
  by (simp add: drop_map)

subsection \<open>Backtests without a completed trade\<close>

text \<open>
  Below its length precondition (\<open>slow_period + 10\<close> records for the MA cross,
  \<open>period + 10\<close> for the RSI strategy) a backtest returns no result. On a series that
  meets the precondition and on which the simulation loop ends without a completed trade,
  it returns a result whose total return, win rate, annual return, maximum drawdown,
  Sharpe ratio and trade count are all 0.
\<close>

lemma zero_trade_result:
  "(length h < slow_period + 10 \<longrightarrow> backtest_ma_cross h fast_period slow_period = Inr None) \<and>
   (length h < period + 10 \<longrightarrow> backtest_rsi h period oversold overbought = Inr None) \<and>
   (\<forall>closes s.
      slow_period + 10 \<le> length h \<and>
      emap (\<lambda>d. dict_item d ''close'') h = Inr closes \<and>
      ma_cross_sim closes (get_dates h) fast_period slow_period = Inr s \<and> trades s = [] \<longrightarrow>
      (\<exists>r. backtest_ma_cross h fast_period slow_period = Inr (Some r) \<and>
           total_return r = 0 \<and> win_rate r = 0 \<and> annual_return r = 0 \<and>
           max_drawdown r = 0 \<and> sharpe_ratio r = 0 \<and> trade_count r = 0)) \<and>
   (\<forall>closes s.
      period + 10 \<le> length h \<and>
      emap (\<lambda>d. dict_item d ''close'') h = Inr closes \<and>
      rsi_sim closes (get_dates h) period oversold overbought = Inr s \<and> trades s = [] \<longrightarrow>
      (\<exists>r. backtest_rsi h period oversold overbought = Inr (Some r) \<and>
           total_return r = 0 \<and> win_rate r = 0 \<and> annual_return r = 0 \<and>
           max_drawdown r = 0 \<and> sharpe_ratio r = 0 \<and> trade_count r = 0))"
proof (intro conjI allI impI)
  assume "length h < slow_period + 10"
  then show "backtest_ma_cross h fast_period slow_period = Inr None"
    by (simp add: backtest_ma_cross_def)
next
  assume "length h < period + 10"
  then show "backtest_rsi h period oversold overbought = Inr None"
    by (simp add: backtest_rsi_def)
next
  fix closes s
  assume a: "slow_period + 10 \<le> length h \<and>
      emap (\<lambda>d. dict_item d ''close'') h = Inr closes \<and>
      ma_cross_sim closes (get_dates h) fast_period slow_period = Inr s \<and> trades s = []"
  then have "h \<noteq> []" by auto
  then show "\<exists>r. backtest_ma_cross h fast_period slow_period = Inr (Some r) \<and>
           total_return r = 0 \<and> win_rate r = 0 \<and> annual_return r = 0 \<and>
           max_drawdown r = 0 \<and> sharpe_ratio r = 0 \<and> trade_count r = 0"
    using a by (simp add: backtest_ma_cross_def ebind_def summary_zero_trades)
next
  fix closes s
  assume a: "period + 10 \<le> length h \<and>
      emap (\<lambda>d. dict_item d ''close'') h = Inr closes \<and>
      rsi_sim closes (get_dates h) period oversold overbought = Inr s \<and> trades s = []"
  then have "h \<noteq> []" by auto
  then show "\<exists>r. backtest_rsi h period oversold overbought = Inr (Some r) \<and>
           total_return r = 0 \<and> win_rate r = 0 \<and> annual_return r = 0 \<and>
           max_drawdown r = 0 \<and> sharpe_ratio r = 0 \<and> trade_count r = 0"
    using a by (simp add: backtest_rsi_def ebind_def summary_zero_trades)
qed

text \<open>
  When every close is a number other than 0 and the periods are positive, no step of
  either loop raises: the windows and the RSI are computed, and a position is entered at
  a close, so the division of the sell branch has a divisor other than 0. The loop then
  ends in a state, and without a completed trade the backtest returns the result of
  zeros.
\<close>

lemma ma_cross_step_total:
  assumes "0 < fast" "0 < slow" "i < length cs" "\<forall>c\<in>set cs. c \<noteq> 0" "entry_inv s"
  shows "\<exists>s'. ma_cross_step (map PNum cs) dates fast slow s i = Inr s' \<and> entry_inv s'"
proof -
  have n: "cs ! i \<noteq> 0" using assms(3,4) by auto
  show ?thesis
    unfolding ma_cross_step_def window_mean_numeric
    using assms n
    by (simp add: py_div_def ebind_def py_num_def entry_inv_def Let_def)
qed

lemma rsi_step_total:
  assumes "0 < period" "i < length cs" "\<forall>c\<in>set cs. c \<noteq> 0" "entry_inv s"
  shows "\<exists>s'. rsi_step (map PNum cs) dates period oversold overbought s i = Inr s' \<and> entry_inv s'"
proof -
  have n: "cs ! i \<noteq> 0" using assms(2,3) by auto
  obtain r where r: "calculate_rsi (take (Suc i) cs) period = Inr r"
    using rsi_no_raise [OF assms(1)] by blast
  obtain pr where pr: "calculate_rsi (take i cs) period = Inr pr"
    using rsi_no_raise [OF assms(1)] by blast
  show ?thesis
    unfolding rsi_step_def py_floats_take
    using assms n
    by (simp add: r pr py_div_def ebind_def py_num_def entry_inv_def Let_def
        split: option.splits)
qed


lemma backtests_return_on_nonzero_closes:
  assumes "numeric_closes h" "\<forall>c\<in>set (close_values h). c \<noteq> 0"
  shows "(0 < fast_period \<and> 0 < slow_period \<and> slow_period + 10 \<le> length h \<longrightarrow>
          (\<exists>s. ma_cross_sim (map PNum (close_values h)) (get_dates h) fast_period slow_period
                 = Inr s \<and>
               (trades s = [] \<longrightarrow>
                  backtest_ma_cross h fast_period slow_period =
                    Inr (Some \<lparr>strategy_name = MA_cross fast_period slow_period,
                               total_return = 0, annual_return = 0, max_drawdown = 0,
                               sharpe_ratio = 0, win_rate = 0, profit_loss_ratio = 0,
                               trade_count = 0, signals = signal_log s\<rparr>)))) \<and>
         (0 < period \<and> period + 10 \<le> length h \<longrightarrow>
          (\<exists>s. rsi_sim (map PNum (close_values h)) (get_dates h) period oversold overbought
                 = Inr s \<and>
               (trades s = [] \<longrightarrow>
                  backtest_rsi h period oversold overbought =
                    Inr (Some \<lparr>strategy_name = RSI_strategy period,
                               total_return = 0, annual_return = 0, max_drawdown = 0,
                               sharpe_ratio = 0, win_rate = 0, profit_loss_ratio = 0,
                               trade_count = 0, signals = signal_log s\<rparr>))))"
proof (intro conjI impI)
  assume a: "0 < fast_period \<and> 0 < slow_period \<and> slow_period + 10 \<le> length h"
  have i0: "entry_inv sim_init" by (simp add: entry_inv_def sim_init_def)
  have "\<exists>s. efold (ma_cross_step (map PNum (close_values h)) (get_dates h) fast_period
               slow_period) sim_init [slow_period..<length (map PNum (close_values h))] = Inr s \<and>
             entry_inv s"
  proof (rule efold_total [where P = entry_inv, OF i0])
    fix s i
    assume "i \<in> set [slow_period..<length (map PNum (close_values h))]" "entry_inv s"
    then show "\<exists>s'. ma_cross_step (map PNum (close_values h)) (get_dates h) fast_period
                 slow_period s i = Inr s' \<and> entry_inv s'"
      using a assms(2) by (intro ma_cross_step_total) simp_all
  qed
  then obtain s where s:
    "ma_cross_sim (map PNum (close_values h)) (get_dates h) fast_period slow_period = Inr s"
    by (auto simp add: ma_cross_sim_def)
  have g: "\<not> (h = [] \<or> length h < slow_period + 10)" using a by auto
  have "trades s = [] \<longrightarrow>
          backtest_ma_cross h fast_period slow_period =
            Inr (Some \<lparr>strategy_name = MA_cross fast_period slow_period,
                       total_return = 0, annual_return = 0, max_drawdown = 0,
                       sharpe_ratio = 0, win_rate = 0, profit_loss_ratio = 0,
                       trade_count = 0, signals = signal_log s\<rparr>)"
    using g s
    by (simp add: backtest_ma_cross_def emap_numeric_closes [OF assms(1)] ebind_def
        summary_zero_trades)
  then show "\<exists>s. ma_cross_sim (map PNum (close_values h)) (get_dates h) fast_period slow_period
                 = Inr s \<and>
               (trades s = [] \<longrightarrow>
                  backtest_ma_cross h fast_period slow_period =
                    Inr (Some \<lparr>strategy_name = MA_cross fast_period slow_period,
                               total_return = 0, annual_return = 0, max_drawdown = 0,
                               sharpe_ratio = 0, win_rate = 0, profit_loss_ratio = 0,
                               trade_count = 0, signals = signal_log s\<rparr>))"
    using s by blast
next
  assume a: "0 < period \<and> period + 10 \<le> length h"
  have i0: "entry_inv sim_init" by (simp add: entry_inv_def sim_init_def)
  have "\<exists>s. efold (rsi_step (map PNum (close_values h)) (get_dates h) period oversold
               overbought) sim_init [period + 1..<length (map PNum (close_values h))] = Inr s \<and>
             entry_inv s"
  proof (rule efold_total [where P = entry_inv, OF i0])
    fix s i
    assume "i \<in> set [period + 1..<length (map PNum (close_values h))]" "entry_inv s"
    then show "\<exists>s'. rsi_step (map PNum (close_values h)) (get_dates h) period oversold
                 overbought s i = Inr s' \<and> entry_inv s'"
      using a assms(2) by (intro rsi_step_total) simp_all
  qed
  then obtain s where s:
    "rsi_sim (map PNum (close_values h)) (get_dates h) period oversold overbought = Inr s"
    by (auto simp add: rsi_sim_def)
  have g: "\<not> (h = [] \<or> length h < period + 10)" using a by auto
  have "trades s = [] \<longrightarrow>
          backtest_rsi h period oversold overbought =
            Inr (Some \<lparr>strategy_name = RSI_strategy period,
                       total_return = 0, annual_return = 0, max_drawdown = 0,
                       sharpe_ratio = 0, win_rate = 0, profit_loss_ratio = 0,
                       trade_count = 0, signals = signal_log s\<rparr>)"
    using g s
    by (simp add: backtest_rsi_def emap_numeric_closes [OF assms(1)] ebind_def
        summary_zero_trades)
  then show "\<exists>s. rsi_sim (map PNum (close_values h)) (get_dates h) period oversold overbought
                 = Inr s \<and>
               (trades s = [] \<longrightarrow>
                  backtest_rsi h period oversold overbought =
                    Inr (Some \<lparr>strategy_name = RSI_strategy period,
                               total_return = 0, annual_return = 0, max_drawdown = 0,
                               sharpe_ratio = 0, win_rate = 0, profit_loss_ratio = 0,
                               trade_count = 0, signals = signal_log s\<rparr>))"
    using s by blast
qed

lemma zero_entry_literal:
  "zero_entry_closes =
     [100, 0, 0, 0, 0, 0, 0, 0, 0, 0, 0, 0, 0, 0, 0, 0, 8, 8, 8, 8, 0, 0, 0, 0, 0, 0, 0, 0, 0, 0]"
  by (simp add: zero_entry_closes_def numeral_eq_Suc)

lemma zero_entry_length: "length zero_entry_series = 30" "length zero_entry_closes = 30"
  by (simp_all add: zero_entry_series_def zero_entry_closes_def)

lemma upt_20_24: "[20..<24] = [20, 21, 22, 23 :: nat]"
  by code_simp

lemma upt_20_30: "[20..<30] = [20, 21, 22, 23, 24, 25, 26, 27, 28, 29 :: nat]"
  by code_simp

lemma zero_entry_buy:
  "efold (ma_cross_step (map PNum zero_entry_closes) (replicate 30 (PStr [])) 5 20)
     sim_init [20..<24] =
   Inr \<lparr>position = 1, entry_price = 0,
        signal_log =
          [\<lparr>sig_date = PStr [], sig_type = BuySignal, sig_price = 0,
              sig_rsi = None, sig_profit = None, sig_reason = MA_cross_up 5 20\<rparr>],
        trades = []\<rparr>"
  unfolding ma_cross_step_def window_mean_numeric
  by (simp add: zero_entry_literal upt_20_24 py_slice_def py_div_def ebind_def py_num_def
      sim_init_def)

lemma zero_entry_sell:
  "ma_cross_step (map PNum zero_entry_closes) (replicate 30 (PStr [])) 5 20
     \<lparr>position = 1, entry_price = 0,
      signal_log =
        [\<lparr>sig_date = PStr [], sig_type = BuySignal, sig_price = 0,
            sig_rsi = None, sig_profit = None, sig_reason = MA_cross_up 5 20\<rparr>],
      trades = []\<rparr> 24 = Inl ZeroDivisionError"
  unfolding ma_cross_step_def window_mean_numeric
  by (simp add: zero_entry_literal py_slice_def py_div_def ebind_def py_num_def)

lemma zero_entry_sim:
  "ma_cross_sim (map PNum zero_entry_closes) (replicate 30 (PStr [])) 5 20
     = Inl ZeroDivisionError"
  unfolding ma_cross_sim_def ma_cross_step_def window_mean_numeric
  by (simp add: zero_entry_literal upt_20_30 py_slice_def py_div_def ebind_def py_num_def
      sim_init_def)

lemma upt_2_11: "[2..<11] = [2, 3, 4, 5, 6, 7, 8, 9, 10 :: nat]"
  by code_simp

lemma py_round_0: "py_round 0 2 = 0"
  by (simp add: py_round_def round_half_even_def)

lemma rsi_zero_entry_sim:
  "rsi_sim (map PNum rsi_zero_entry_closes) (replicate 11 (PStr [])) 1 30 70
     = Inl ZeroDivisionError"
  unfolding rsi_sim_def rsi_step_def py_floats_take
  by (simp add: rsi_zero_entry_closes_def upt_2_11 calculate_rsi_def changes_Cons changes_single
      py_suffix_def py_div_def ebind_def py_num_def sim_init_def py_round_100 py_round_0)

text \<open>
  Claim C7 says that a backtest returns a result with zeros whenever the series meets
  the length precondition and no trade completes. The sell branch of both loops divides
  by the entry price without a test, while the other divisions of the module test their
  divisor. On thirty closes (100, fifteen of 0, four of 8, ten of 0) with periods 5 and
  20 the precondition holds, the loop buys at index 20 at the price 0 and holds until
  index 24 without a completed trade, and the sell at index 24 raises ZeroDivisionError:
  \<open>backtest_ma_cross\<close> raises instead of returning a result. \<open>backtest_rsi\<close>
  does the same with period 1 on the closes 10, 0, 0, 5, 1, 1, 1, 1, 1, 1, 1: it buys at
  index 2 at the price 0 and raises at the sell of index 4.
\<close>

theorem zero_entry_price_raises:
  "20 + 10 \<le> length zero_entry_series \<and>
   efold (ma_cross_step (map PNum zero_entry_closes) (get_dates zero_entry_series) 5 20)
     sim_init [20..<24] =
   Inr \<lparr>position = 1, entry_price = 0,
        signal_log =
          [\<lparr>sig_date = PStr [], sig_type = BuySignal, sig_price = 0,
              sig_rsi = None, sig_profit = None, sig_reason = MA_cross_up 5 20\<rparr>],
        trades = []\<rparr> \<and>
   ma_cross_step (map PNum zero_entry_closes) (get_dates zero_entry_series) 5 20
     \<lparr>position = 1, entry_price = 0,
      signal_log =
        [\<lparr>sig_date = PStr [], sig_type = BuySignal, sig_price = 0,
            sig_rsi = None, sig_profit = None, sig_reason = MA_cross_up 5 20\<rparr>],
      trades = []\<rparr> 24 = Inl ZeroDivisionError \<and>
   backtest_ma_cross zero_entry_series 5 20 = Inl ZeroDivisionError \<and>
   1 + 10 \<le> length rsi_zero_entry_series \<and>
   backtest_rsi rsi_zero_entry_series 1 30 70 = Inl ZeroDivisionError"
proof -
  have d: "get_dates zero_entry_series = replicate 30 (PStr [])"
    unfolding zero_entry_series_def by (simp add: dates_of_points zero_entry_length)
  have c: "emap (\<lambda>d. dict_item d ''close'') zero_entry_series = Inr (map PNum zero_entry_closes)"
    unfolding zero_entry_series_def by (rule closes_of_points)
  have g: "(zero_entry_series = [] \<or> length zero_entry_series < 20 + 10) = False"
    using zero_entry_length by auto
  have b: "backtest_ma_cross zero_entry_series 5 20 = Inl ZeroDivisionError"
    unfolding backtest_ma_cross_def
    by (simp only: g if_False c d zero_entry_sim ebind_def sum.case)
  have rl: "length rsi_zero_entry_series = 11"
    by (simp add: rsi_zero_entry_series_def rsi_zero_entry_closes_def)
  have "length rsi_zero_entry_closes = 11" by (simp add: rsi_zero_entry_closes_def)
  then have rd: "get_dates rsi_zero_entry_series = replicate 11 (PStr [])"
    unfolding rsi_zero_entry_series_def by (simp add: dates_of_points)
  have rc: "emap (\<lambda>d. dict_item d ''close'') rsi_zero_entry_series
      = Inr (map PNum rsi_zero_entry_closes)"
    unfolding rsi_zero_entry_series_def by (rule closes_of_points)
  have rg: "(rsi_zero_entry_series = [] \<or> length rsi_zero_entry_series < 1 + 10) = False"
    using rl by auto
  have rb: "backtest_rsi rsi_zero_entry_series 1 30 70 = Inl ZeroDivisionError"
    unfolding backtest_rsi_def
    by (simp only: rg if_False rc rd rsi_zero_entry_sim ebind_def sum.case)
  show ?thesis
    unfolding d using zero_entry_buy zero_entry_sell b zero_entry_length rl rb by simp
qed

subsection \<open>The signals kept in a backtest result\<close>

text \<open>
  Claim C9: every result returned by \<open>backtest_ma_cross\<close> or \<open>backtest_rsi\<close>, with
  or without completed trades, holds at most five signals, and they are the last five (or
  all, when fewer) of the signals the simulation recorded, in the order of recording.
\<close>

theorem backtest_signals_last_five:
  "(\<forall>r. backtest_ma_cross h fast_period slow_period = Inr (Some r) \<longrightarrow>
      (\<exists>closes s. emap (\<lambda>d. dict_item d ''close'') h = Inr closes \<and>
         ma_cross_sim closes (get_dates h) fast_period slow_period = Inr s \<and>
         signals r = drop (length (signal_log s) - 5) (signal_log s)) \<and>
      length (signals r) \<le> 5) \<and>
   (\<forall>r. backtest_rsi h period oversold overbought = Inr (Some r) \<longrightarrow>
      (\<exists>closes s. emap (\<lambda>d. dict_item d ''close'') h = Inr closes \<and>
         rsi_sim closes (get_dates h) period oversold overbought = Inr s \<and>
         signals r = drop (length (signal_log s) - 5) (signal_log s)) \<and>
      length (signals r) \<le> 5)"
proof (intro conjI allI impI)
  fix r assume a: "backtest_ma_cross h fast_period slow_period = Inr (Some r)"
  then obtain closes s where cs: "emap (\<lambda>d. dict_item d ''close'') h = Inr closes"
    "ma_cross_sim closes (get_dates h) fast_period slow_period = Inr s"
    "backtest_summary (MA_cross fast_period slow_period) (length h) s = Inr r"
    by (auto simp add: backtest_ma_cross_def ebind_def split: if_splits sum.splits)
  have inv: "sim_inv s" using cs(2) by (rule ma_cross_sim_inv)
  show "\<exists>closes s. emap (\<lambda>d. dict_item d ''close'') h = Inr closes \<and>
         ma_cross_sim closes (get_dates h) fast_period slow_period = Inr s \<and>
         signals r = drop (length (signal_log s) - 5) (signal_log s)"
    using cs summary_signals [OF inv cs(3)] by blast
  show "length (signals r) \<le> 5"
    using summary_signals [OF inv cs(3)] by blast
next
  fix r assume a: "backtest_rsi h period oversold overbought = Inr (Some r)"
  then obtain closes s where cs: "emap (\<lambda>d. dict_item d ''close'') h = Inr closes"
    "rsi_sim closes (get_dates h) period oversold overbought = Inr s"
    "backtest_summary (RSI_strategy period) (length h) s = Inr r"
    by (auto simp add: backtest_rsi_def ebind_def split: if_splits sum.splits)
  have inv: "sim_inv s" using cs(2) by (rule rsi_sim_inv)
  show "\<exists>closes s. emap (\<lambda>d. dict_item d ''close'') h = Inr closes \<and>
         rsi_sim closes (get_dates h) period oversold overbought = Inr s \<and>
         signals r = drop (length (signal_log s) - 5) (signal_log s)"
    using cs summary_signals [OF inv cs(3)] by blast
  show "length (signals r) \<le> 5"
    using summary_signals [OF inv cs(3)] by blast
qed


theorem backtest_signals_last_five_witness:
  "(\<exists>r. backtest_ma_cross zigzag_series 1 2 = Inr (Some r) \<and>
        map sig_type (signals r) =
          [BuySignal, SellSignal, BuySignal, SellSignal, BuySignal] \<and>
        map sig_price (signals r) = [8, 4, 16, 8, 32]) \<and>
   (\<exists>r. backtest_rsi rising_series 1 30 70 = Inr (Some r) \<and>
        map sig_type (signals r) = [BuySignal] \<and> map sig_price (signals r) = [2])"
proof -
  have cz: "emap (\<lambda>d. dict_item d ''close'') zigzag_series = Inr (map PNum zigzag_closes)"
    unfolding zigzag_series_def by (rule closes_of_points)
  have dz: "get_dates zigzag_series = replicate 12 (PStr [])"
    unfolding zigzag_series_def by (simp add: dates_of_points zigzag_length)
  have cr: "emap (\<lambda>d. dict_item d ''close'') rising_series = Inr (map PNum rising_closes)"
    unfolding rising_series_def by (rule closes_of_points)
  have dr: "get_dates rising_series = replicate 12 (PStr [])"
    unfolding rising_series_def by (simp add: dates_of_points rising_length)
  have gz: "(zigzag_series = [] \<or> length zigzag_series < 2 + 10) = False"
    using zigzag_length by auto
  have gr: "(rising_series = [] \<or> length rising_series < 1 + 10) = False"
    using rising_length by auto
  obtain sz where sz:
    "ma_cross_sim (map PNum zigzag_closes) (replicate 12 (PStr [])) 1 2 = Inr sz"
    "trades sz = [- 50, - 50, - 50, - 50]"
    using zigzag_sim by simp
  have "std (trades sz) = Inr 0"
    unfolding sz(2) using std_replicate [of 4 "- 50"] by (simp add: numeral_eq_Suc)
  then obtain rz where sumz:
    "backtest_summary (MA_cross 1 2) (length zigzag_series) sz = Inr rz"
    using summary_returns by blast
  have rz: "backtest_ma_cross zigzag_series 1 2 = Inr (Some rz)"
    unfolding backtest_ma_cross_def
    by (simp only: gz if_False cz dz sz(1) sumz ebind_def sum.case)
  obtain sr where sr0:
    "rsi_sim (map PNum rising_closes) (replicate 12 (PStr [])) 1 30 70 = Inr sr"
    "trades sr = []"
    using rising_rsi_sim by simp
  obtain rr where sumr:
    "backtest_summary (RSI_strategy 1) (length rising_series) sr = Inr rr"
    using summary_zero_trades [OF sr0(2)] by blast
  have rr: "backtest_rsi rising_series 1 30 70 = Inr (Some rr)"
    unfolding backtest_rsi_def
    by (simp only: gr if_False cr dr sr0(1) sumr ebind_def sum.case)
  note tz = backtest_signals_last_five [of zigzag_series 1 2 0 0 0, THEN conjunct1, rule_format,
      OF rz, THEN conjunct1]
  then obtain closes s where z: "emap (\<lambda>d. dict_item d ''close'') zigzag_series = Inr closes"
    "ma_cross_sim closes (get_dates zigzag_series) 1 2 = Inr s"
    "signals rz = drop (length (signal_log s) - 5) (signal_log s)"
    by (elim exE conjE)
  have "closes = map PNum zigzag_closes" using z(1) unfolding cz by simp
  then have sz: "Inr s = ma_cross_sim (map PNum zigzag_closes) (replicate 12 (PStr [])) 1 2"
    using z(2) unfolding dz by simp
  have vz: "map sig_type (signals rz) =
          [BuySignal, SellSignal, BuySignal, SellSignal, BuySignal]"
        "map sig_price (signals rz) = [8, 4, 16, 8, 32]"
    unfolding last_five_of_map [OF z(3)] zigzag_log [OF sz] by simp_all
  note tr = backtest_signals_last_five [of rising_series 0 0 1 30 70, THEN conjunct2, rule_format,
      OF rr, THEN conjunct1]
  then obtain closes' s' where r: "emap (\<lambda>d. dict_item d ''close'') rising_series = Inr closes'"
    "rsi_sim closes' (get_dates rising_series) 1 30 70 = Inr s'"
    "signals rr = drop (length (signal_log s') - 5) (signal_log s')"
    by (elim exE conjE)
  have "closes' = map PNum rising_closes" using r(1) unfolding cr by simp
  then have sr: "Inr s' = rsi_sim (map PNum rising_closes) (replicate 12 (PStr [])) 1 30 70"
    using r(2) unfolding dr by simp
  have vr: "map sig_type (signals rr) = [BuySignal]" "map sig_price (signals rr) = [2]"
    unfolding last_five_of_map [OF r(3)] rising_log [OF sr] by simp_all
  show ?thesis
    apply (rule conjI)
     apply (rule exI [of _ rz])
     apply (simp only: rz vz simp_thms)
    apply (rule exI [of _ rr])
    apply (simp only: rr vr simp_thms)
    done
qed

subsection \<open>MACD on a constant series\<close>

text \<open>
  The truthiness tests of \<open>calculate_macd\<close> read a zero as absent: on 35 equal closes
  the signal line is 0 and the histogram is left out.
\<close>

lemma macd_history_replicate:
  assumes "0 < fast" "0 < slow" "c \<noteq> 0"
    and "\<forall>i\<in>set idx. fast \<le> i \<and> slow \<le> i \<and> i \<le> n"
  shows "macd_history (replicate n c) fast slow idx acc = Inr (acc @ replicate (length idx) 0)"
  using assms(4)
proof (induction idx arbitrary: acc)
  case Nil
  then show ?case by simp
next
  case (Cons i rest)
  then have i: "fast \<le> i" "slow \<le> i" "i \<le> n" by simp_all
  have t: "take i (replicate n c) = replicate i c" using i(3) by (simp add: min_def)
  have e: "ema (replicate i c) fast = Inr (Some c)" "ema (replicate i c) slow = Inr (Some c)"
    using assms(1,2) i by (simp_all add: ema_replicate)
  have r: "macd_history (replicate n c) fast slow rest (acc @ [0])
          = Inr ((acc @ [0]) @ replicate (length rest) 0)"
    using Cons by simp
  have "macd_history (replicate n c) fast slow (i # rest) acc =
          macd_history (replicate n c) fast slow rest (acc @ [c - c])"
    using assms(3)
    by (simp only: macd_history.simps t e ebind_def sum.case prod.case option.case) simp
  then show ?case
    using r by (simp add: replicate_append_same)
qed

lemma constant_series_histogram_absent:
  "calculate_macd (replicate 35 1) 12 26 9 = Inr (Some 0, Some 0, None)"
proof -
  have idx: "\<forall>i\<in>set [26..<36]. (12::nat) \<le> i \<and> 26 \<le> i \<and> i \<le> 35"
    by (simp only: set_upt) auto
  have l: "length [26..<36] = 10" by simp
  have u: "[26..<length (replicate 35 (1::real)) + 1] = [26..<36]" by simp
  have "macd_history (replicate 35 1) 12 26 [26..<36] []
          = Inr ([] @ replicate (length [26..<36]) (0::real))"
    by (rule macd_history_replicate [OF _ _ _ idx]) simp_all
  then have h: "macd_history (replicate 35 1) 12 26 [26..<36] [] = Inr (replicate 10 0)"
    by (simp only: l append_Nil)
  have s: "sma (replicate 10 0) 9 = Inr (Some 0)"
    by (simp add: sma_replicate)
  have g: "(length (replicate 35 (1::real)) < 26 + 9) = False"
    "(length (replicate 10 (0::real)) < 9) = False"
    by simp_all
  have e: "ema (replicate 35 1) 12 = Inr (Some 1)" "ema (replicate 35 1) 26 = Inr (Some 1)"
    by (simp_all add: ema_replicate)
  show ?thesis
    unfolding calculate_macd_def
    by (simp only: g if_False e u h s ebind_def sum.case prod.case option.case Let_def) simp
qed

end
